theory Spec2Isabelle
  imports Main "HOL-Library.Word" "HOL-Library.Monad_Syntax"
begin

unbundle bit_operations_syntax

section \<open>Memory, pointers and sizes\<close>

text \<open>
  \<^verbatim>\<open>size_t\<close> is a 64-bit unsigned word: \<open>+\<close>, \<open>-\<close> and \<open>*\<close> wrap around, \<open>div\<close> is the
  unsigned division and \<open><\<close> the unsigned order. A \<^verbatim>\<open>char *\<close> is \<open>None\<close> for the null
  pointer and otherwise the bytes of its allocation from the pointee to the end of the
  allocation. Reading or writing past these bytes, or through the null pointer, is
  undefined behaviour in the source and the value \<open>None\<close> here, so every operation that
  touches memory returns an \<open>option\<close>. \<open>None\<close> is also the value of a loop that never
  exits: the loops of the source are \<^theory_text>\<open>partial_function\<close>s in the option monad.
  Views and strings are values: a view handed to a mutating operation is a copy of the
  bytes it points to, so a view into the buffer that the operation itself rewrites is
  outside this model.
\<close>

type_synonym size_t = "64 word"
type_synonym ptr = "char list option"

abbreviation kNullChar :: char where
  "kNullChar \<equiv> CHR 0x00"

definition InvalidIndex :: size_t where
  "InvalidIndex = - 1"

definition peek :: "ptr \<Rightarrow> size_t \<Rightarrow> char option" where
  "peek p i = (case p of None \<Rightarrow> None
               | Some m \<Rightarrow> if unat i < length m then Some (m ! unat i) else None)"

definition poke :: "ptr \<Rightarrow> size_t \<Rightarrow> char \<Rightarrow> ptr" where
  "poke p i c = (case p of None \<Rightarrow> None
                 | Some m \<Rightarrow> if unat i < length m then Some (m[unat i := c]) else None)"

definition ptr_add :: "ptr \<Rightarrow> size_t \<Rightarrow> ptr" where
  "ptr_add p k = map_option (drop (unat k)) p"

text \<open>\<^verbatim>\<open>strlen\<close> and \<^verbatim>\<open>StringRef::lenstr\<close>: the number of bytes before the first zero byte;
  without a zero byte the scan leaves the allocation.\<close>

definition strlen :: "ptr \<Rightarrow> size_t option" where
  "strlen p = (case p of None \<Rightarrow> None
               | Some m \<Rightarrow> if kNullChar \<in> set m
                           then Some (of_nat (length (takeWhile (\<lambda>c. c \<noteq> kNullChar) m)))
                           else None)"

text \<open>\<^verbatim>\<open>memcpy (dst + off, src, n)\<close>, returning the destination's allocation.\<close>

definition memcpy :: "ptr \<Rightarrow> size_t \<Rightarrow> ptr \<Rightarrow> size_t \<Rightarrow> ptr" where
  "memcpy dst off src n =
     (case (dst, src) of
        (Some d, Some s) \<Rightarrow>
          if unat off + unat n \<le> length d \<and> unat n \<le> length s
          then Some (take (unat off) d @ take (unat n) s @ drop (unat off + unat n) d)
          else None
      | _ \<Rightarrow> None)"

text \<open>\<^verbatim>\<open>makeUnique <char[]> (n)\<close> is declared in \<^verbatim>\<open>crlib/uniqueptr.h\<close>, which is not
  among the sources: it returns a fresh array of \<open>n\<close> bytes. What the bytes hold is not
  known, so it is the parameter \<open>junk\<close> of every operation that allocates.\<close>

definition makeUnique :: "(nat \<Rightarrow> char) \<Rightarrow> size_t \<Rightarrow> ptr" where
  "makeUnique junk n = Some (map junk [0..<unat n])"

text \<open>A string literal of the source: its bytes and the terminator.\<close>

definition literal :: "string \<Rightarrow> ptr" where
  "literal s = Some (s @ [kNullChar])"

section \<open>StringRef\<close>

text \<open>The fields \<^verbatim>\<open>chars_\<close> and \<^verbatim>\<open>length_\<close> of \<^verbatim>\<open>StringRef\<close>.\<close>

record StringRef =
  ref_chars :: ptr
  ref_length :: size_t

text \<open>\<^verbatim>\<open>StringRef (const char *chars)\<close>.\<close>

definition StringRef_cstr :: "ptr \<Rightarrow> StringRef option" where
  "StringRef_cstr p = (case p of None \<Rightarrow> Some \<lparr>ref_chars = None, ref_length = 0\<rparr>
                       | Some m \<Rightarrow> do { n \<leftarrow> strlen p; Some \<lparr>ref_chars = p, ref_length = n\<rparr> })"

text \<open>\<^verbatim>\<open>find (StringRef pattern, size_t start)\<close>: the inner loop returns the value of
  \<^verbatim>\<open>index\<close> at which it stops.\<close>

partial_function (option) find_inner :: "StringRef \<Rightarrow> StringRef \<Rightarrow> size_t \<Rightarrow> size_t \<Rightarrow> size_t option" where
  "find_inner v pattern i index =
     (if index < ref_length pattern then
        do { c0 \<leftarrow> peek (ref_chars v) index;
             if c0 \<noteq> kNullChar then
               do { a \<leftarrow> peek (ref_chars v) (i + index);
                    b \<leftarrow> peek (ref_chars pattern) index;
                    if a \<noteq> b then Some index else find_inner v pattern i (index + 1) }
             else Some index }
      else Some index)"

partial_function (option) find_outer :: "StringRef \<Rightarrow> StringRef \<Rightarrow> size_t \<Rightarrow> size_t option" where
  "find_outer v pattern i =
     (if i \<le> ref_length v - ref_length pattern then
        do { index \<leftarrow> find_inner v pattern i 0;
             p \<leftarrow> peek (ref_chars pattern) index;
             if p = kNullChar then Some i else find_outer v pattern (i + 1) }
      else Some InvalidIndex)"

definition StringRef_find :: "StringRef \<Rightarrow> StringRef \<Rightarrow> size_t \<Rightarrow> size_t option" where
  "StringRef_find v pattern start =
     (if ref_length pattern > ref_length v \<or> start > ref_length v then Some InvalidIndex
      else find_outer v pattern start)"

text \<open>\<^verbatim>\<open>rfind (char pattern)\<close>.\<close>

partial_function (option) rfind_char_loop :: "StringRef \<Rightarrow> char \<Rightarrow> size_t \<Rightarrow> size_t option" where
  "rfind_char_loop v pattern i =
     (if i \<noteq> 0 then
        do { c \<leftarrow> peek (ref_chars v) i;
             if c = pattern then Some i else rfind_char_loop v pattern (i - 1) }
      else Some InvalidIndex)"

definition StringRef_rfind_char :: "StringRef \<Rightarrow> char \<Rightarrow> size_t option" where
  "StringRef_rfind_char v pattern = rfind_char_loop v pattern (ref_length v)"

text \<open>\<^verbatim>\<open>rfind (StringRef pattern)\<close>: the inner loop returns \<^verbatim>\<open>match\<close>; it reads
  \<^verbatim>\<open>chars_[i + i]\<close>, as the source does.\<close>

partial_function (option) rfind_inner :: "StringRef \<Rightarrow> StringRef \<Rightarrow> size_t \<Rightarrow> size_t \<Rightarrow> bool option" where
  "rfind_inner v pattern i j =
     (if j > 0 then
        do { a \<leftarrow> peek (ref_chars v) (i + i);
             b \<leftarrow> peek (ref_chars pattern) j;
             if a \<noteq> b then Some False else rfind_inner v pattern i (j - 1) }
      else Some True)"

partial_function (option) rfind_outer :: "StringRef \<Rightarrow> StringRef \<Rightarrow> size_t \<Rightarrow> size_t option" where
  "rfind_outer v pattern i =
     (if i \<ge> ref_length pattern then
        do { match \<leftarrow> rfind_inner v pattern i (ref_length pattern - 1);
             if match then Some i else rfind_outer v pattern (i - 1) }
      else Some InvalidIndex)"

definition StringRef_rfind :: "StringRef \<Rightarrow> StringRef \<Rightarrow> size_t option" where
  "StringRef_rfind v pattern =
     (if ref_length pattern > ref_length v then Some InvalidIndex
      else rfind_outer v pattern (ref_length v - 1))"

text \<open>\<^verbatim>\<open>substr (size_t start, size_t count = InvalidIndex)\<close>.\<close>

definition StringRef_substr :: "StringRef \<Rightarrow> size_t \<Rightarrow> size_t \<Rightarrow> StringRef" where
  "StringRef_substr v start count =
     (let start = min start (ref_length v);
          count = (if count = InvalidIndex then ref_length v else count)
      in \<lparr>ref_chars = ptr_add (ref_chars v) start,
          ref_length = min count (ref_length v - start)\<rparr>)"

text \<open>\<^verbatim>\<open>split <U> (StringRef delim)\<close>. \<^verbatim>\<open>Array <U>\<close>, declared in \<^verbatim>\<open>crlib/array.h\<close> outside
  the sources, is a list and \<^verbatim>\<open>push\<close> appends at its end; \<open>conv\<close> is the conversion from \<^verbatim>\<open>StringRef\<close> to the element type \<^verbatim>\<open>U\<close> that
  \<^verbatim>\<open>push\<close> performs: the identity for \<^verbatim>\<open>U = StringRef\<close>, the constructor
  \<^verbatim>\<open>String (StringRef)\<close> for \<^verbatim>\<open>U = String\<close>.\<close>

partial_function (option) split_loop ::
    "(StringRef \<Rightarrow> 'u option) \<Rightarrow> StringRef \<Rightarrow> StringRef \<Rightarrow> 'u list \<Rightarrow> size_t \<Rightarrow> size_t \<Rightarrow> 'u list option" where
  "split_loop conv v delim tokens prev pos =
     do { pos \<leftarrow> StringRef_find v delim pos;
          if pos \<noteq> InvalidIndex then
            do { u \<leftarrow> conv (StringRef_substr v prev (pos - prev));
                 split_loop conv v delim (tokens @ [u]) (pos + 1) (pos + 1) }
          else
            do { u \<leftarrow> conv (StringRef_substr v prev (pos - prev));
                 Some (tokens @ [u]) } }"

definition StringRef_split :: "(StringRef \<Rightarrow> 'u option) \<Rightarrow> StringRef \<Rightarrow> StringRef \<Rightarrow> 'u list option" where
  "StringRef_split conv v delim = split_loop conv v delim [] 0 0"

text \<open>The bytes a view stands for: the first \<^verbatim>\<open>length_\<close> bytes at \<^verbatim>\<open>chars_\<close>.\<close>

definition view :: "StringRef \<Rightarrow> string option" where
  "view v = (case ref_chars v of None \<Rightarrow> (if ref_length v = 0 then Some [] else None)
             | Some m \<Rightarrow> if unat (ref_length v) \<le> length m
                         then Some (take (unat (ref_length v)) m) else None)"

section \<open>String\<close>

text \<open>The fields \<^verbatim>\<open>chars_\<close>, \<^verbatim>\<open>length_\<close> and \<^verbatim>\<open>capacity_\<close> of \<^verbatim>\<open>String\<close>.\<close>

record String =
  str_chars :: ptr
  str_length :: size_t
  str_capacity :: size_t

definition String_empty :: String where
  "String_empty = \<lparr>str_chars = None, str_length = 0, str_capacity = 0\<rparr>"

text \<open>\<^verbatim>\<open>chars ()\<close> answers the literal \<^verbatim>\<open>"\0"\<close> for a null buffer; \<^verbatim>\<open>str ()\<close> is the view
  \<^verbatim>\<open>{ chars_.get (), length_ }\<close>.\<close>

definition chars :: "String \<Rightarrow> ptr" where
  "chars s = (case str_chars s of None \<Rightarrow> Some [kNullChar, kNullChar] | Some m \<Rightarrow> Some m)"

definition str :: "String \<Rightarrow> StringRef" where
  "str s = \<lparr>ref_chars = str_chars s, ref_length = str_length s\<rparr>"

text \<open>Reading and writing \<^verbatim>\<open>at (i)\<close>; writing into the literal of a null buffer is
  undefined.\<close>

definition at_get :: "String \<Rightarrow> size_t \<Rightarrow> char option" where
  "at_get s i = peek (chars s) i"

definition at_set :: "String \<Rightarrow> size_t \<Rightarrow> char \<Rightarrow> String option" where
  "at_set s i c = (case str_chars s of None \<Rightarrow> None
                   | Some m \<Rightarrow> do { m' \<leftarrow> poke (Some m) i c; Some (s\<lparr>str_chars := Some m'\<rparr>) })"

text \<open>\<^verbatim>\<open>getGrowFactor\<close> and its \<^verbatim>\<open>while\<close> loop.\<close>

partial_function (option) grow_loop :: "size_t \<Rightarrow> size_t \<Rightarrow> size_t option" where
  "grow_loop need capacity =
     (if need > capacity then grow_loop need (capacity + capacity * 2 div 3) else Some capacity)"

definition getGrowFactor :: "String \<Rightarrow> size_t \<Rightarrow> size_t option" where
  "getGrowFactor s len =
     do { capacity \<leftarrow> grow_loop (str_length s + len)
                        (if str_capacity s \<noteq> 0 then str_capacity s else max 12 (len + 1));
          Some (capacity + (if len < 4 then 8 else len)) }"

definition calcLength :: "ptr \<Rightarrow> size_t \<Rightarrow> size_t option" where
  "calcLength p len = (if len > 0 then Some len else (case p of None \<Rightarrow> Some 0 | Some m \<Rightarrow> strlen p))"

definition String_resize :: "(nat \<Rightarrow> char) \<Rightarrow> String \<Rightarrow> size_t \<Rightarrow> String option" where
  "String_resize junk s amount =
     (if str_length s + amount < str_capacity s then Some s
      else do { g \<leftarrow> getGrowFactor s amount;
                let factor = g + str_length s;
                (case str_chars s of
                   Some m \<Rightarrow> do { transfer \<leftarrow> memcpy (makeUnique junk factor) 0 (Some m) (str_length s);
                                   Some (s\<lparr>str_chars := Some transfer, str_capacity := factor\<rparr>) }
                 | None \<Rightarrow> do { m' \<leftarrow> poke (makeUnique junk factor) 0 kNullChar;
                                 Some (s\<lparr>str_chars := Some m', str_capacity := factor\<rparr>) }) })"

text \<open>\<^verbatim>\<open>assign (const char *str, size_t length = 0)\<close> and
  \<^verbatim>\<open>append (const char *str, size_t length = 0)\<close>.\<close>

definition String_assign :: "(nat \<Rightarrow> char) \<Rightarrow> String \<Rightarrow> ptr \<Rightarrow> size_t \<Rightarrow> String option" where
  "String_assign junk s p len0 =
     do { len \<leftarrow> calcLength p len0;
          s1 \<leftarrow> String_resize junk s len;
          m1 \<leftarrow> (case p of Some src \<Rightarrow> memcpy (str_chars s1) 0 p len
                           | None \<Rightarrow> poke (str_chars s1) 0 kNullChar);
          m2 \<leftarrow> poke (Some m1) len kNullChar;
          Some (s1\<lparr>str_chars := Some m2, str_length := len\<rparr>) }"

definition String_append :: "(nat \<Rightarrow> char) \<Rightarrow> String \<Rightarrow> ptr \<Rightarrow> size_t \<Rightarrow> String option" where
  "String_append junk s p len0 =
     do { len \<leftarrow> calcLength p len0;
          s1 \<leftarrow> String_resize junk s len;
          m1 \<leftarrow> memcpy (str_chars s1) (str_length s1) p len;
          m2 \<leftarrow> poke (Some m1) (str_length s1 + len) kNullChar;
          Some (s1\<lparr>str_chars := Some m2, str_length := str_length s1 + len\<rparr>) }"

text \<open>The constructors \<^verbatim>\<open>String (const char *str, size_t length = 0)\<close>,
  \<^verbatim>\<open>String (const String &str)\<close> and \<^verbatim>\<open>String (StringRef str)\<close>, and the copy assignment
  \<^verbatim>\<open>operator = (const String &rhs)\<close>.\<close>

definition String_cstr :: "(nat \<Rightarrow> char) \<Rightarrow> ptr \<Rightarrow> size_t \<Rightarrow> String option" where
  "String_cstr junk p len = String_assign junk String_empty p len"

definition String_copy :: "(nat \<Rightarrow> char) \<Rightarrow> String \<Rightarrow> String option" where
  "String_copy junk src = String_assign junk String_empty (chars src) 0"

definition String_ref :: "(nat \<Rightarrow> char) \<Rightarrow> StringRef \<Rightarrow> String option" where
  "String_ref junk v = String_assign junk String_empty (ref_chars v) (ref_length v)"

definition copy_assign :: "(nat \<Rightarrow> char) \<Rightarrow> String \<Rightarrow> String \<Rightarrow> String option" where
  "copy_assign junk s rhs = String_assign junk s (chars rhs) 0"

text \<open>\<^verbatim>\<open>String (UniquePtr <char[]> &&rhs, size_t length)\<close> adopts the array and leaves
  \<^verbatim>\<open>capacity_\<close> at its default.\<close>

definition String_adopt :: "ptr \<Rightarrow> size_t \<Rightarrow> String" where
  "String_adopt rhs len = \<lparr>str_chars = rhs, str_length = len, str_capacity = 0\<rparr>"

text \<open>\<^verbatim>\<open>insert (size_t index, StringRef str)\<close> with its two loops.\<close>

partial_function (option) insert_shift :: "String \<Rightarrow> size_t \<Rightarrow> size_t \<Rightarrow> size_t \<Rightarrow> String option" where
  "insert_shift s n index i =
     (if i > index then
        do { c \<leftarrow> at_get s (i - 1);
             s' \<leftarrow> at_set s (i + n - 1) c;
             insert_shift s' n index (i - 1) }
      else Some s)"

partial_function (option) insert_fill :: "String \<Rightarrow> StringRef \<Rightarrow> size_t \<Rightarrow> size_t \<Rightarrow> String option" where
  "insert_fill s v index i =
     (if i < ref_length v then
        do { c \<leftarrow> peek (ref_chars v) i;
             s' \<leftarrow> at_set s (i + index) c;
             insert_fill s' v index (i + 1) }
      else Some s)"

definition String_insert :: "(nat \<Rightarrow> char) \<Rightarrow> String \<Rightarrow> size_t \<Rightarrow> StringRef \<Rightarrow> (String \<times> bool) option" where
  "String_insert junk s index v =
     (if ref_length v = 0 then Some (s, False)
      else if index \<ge> str_length s then
        do { s' \<leftarrow> String_append junk s (ref_chars v) (ref_length v); Some (s', True) }
      else
        do { s1 \<leftarrow> String_resize junk s (str_length s + ref_length v);
             s2 \<leftarrow> insert_shift s1 (ref_length v) index (str_length s1);
             s3 \<leftarrow> insert_fill s2 v index 0;
             Some (s3\<lparr>str_length := str_length s3 + ref_length v\<rparr>, True) })"

text \<open>\<^verbatim>\<open>erase (size_t index, size_t count = 1)\<close>.\<close>

partial_function (option) erase_loop :: "String \<Rightarrow> size_t \<Rightarrow> size_t \<Rightarrow> String option" where
  "erase_loop s count i =
     (if i < str_length s then
        do { c \<leftarrow> at_get s (i + count);
             s' \<leftarrow> at_set s i c;
             erase_loop s' count (i + 1) }
      else Some s)"

definition String_erase :: "String \<Rightarrow> size_t \<Rightarrow> size_t \<Rightarrow> (String \<times> bool) option" where
  "String_erase s index count =
     (if index + count > str_length s then Some (s, False)
      else do { s' \<leftarrow> erase_loop (s\<lparr>str_length := str_length s - count\<rparr>) count index;
                Some (s', True) })"

text \<open>\<^verbatim>\<open>replace (StringRef needle, StringRef to)\<close>; \<^verbatim>\<open>String::find\<close> is
  \<^verbatim>\<open>str ().find\<close>.\<close>

partial_function (option) replace_loop ::
    "(nat \<Rightarrow> char) \<Rightarrow> StringRef \<Rightarrow> StringRef \<Rightarrow> String \<Rightarrow> size_t \<Rightarrow> size_t \<Rightarrow> (String \<times> size_t) option" where
  "replace_loop junk needle to s replaced pos =
     (if pos < str_length s then
        do { pos \<leftarrow> StringRef_find (str s) needle pos;
             if pos = InvalidIndex then Some (s, replaced)
             else do { (s1, _) \<leftarrow> String_erase s pos (ref_length needle);
                       (s2, _) \<leftarrow> String_insert junk s1 pos to;
                       replace_loop junk needle to s2 (replaced + 1) (pos + ref_length to) } }
      else Some (s, replaced))"

definition String_replace :: "(nat \<Rightarrow> char) \<Rightarrow> String \<Rightarrow> StringRef \<Rightarrow> StringRef \<Rightarrow> (String \<times> size_t) option" where
  "String_replace junk s needle to =
     (if ref_length needle = 0 \<or> ref_length to = 0 then Some (s, 0)
      else replace_loop junk needle to s 0 0)"

text \<open>\<^verbatim>\<open>String::split (StringRef delim)\<close> is \<^verbatim>\<open>str ().split <String> (delim)\<close>.\<close>

definition String_split :: "(nat \<Rightarrow> char) \<Rightarrow> String \<Rightarrow> StringRef \<Rightarrow> String list option" where
  "String_split junk s delim = StringRef_split (String_ref junk) (str s) delim"

text \<open>\<^verbatim>\<open>operator + (const String &lhs, const String &rhs)\<close>, the overload that
  \<^verbatim>\<open>delim + sequence[index]\<close> selects after converting \<^verbatim>\<open>delim\<close> with
  \<^verbatim>\<open>String (StringRef)\<close>; \<^verbatim>\<open>operator += (const String &rhs)\<close> is \<^verbatim>\<open>append (rhs.chars (), 0)\<close>.\<close>

definition String_plus :: "(nat \<Rightarrow> char) \<Rightarrow> String \<Rightarrow> String \<Rightarrow> String option" where
  "String_plus junk lhs rhs = do { t \<leftarrow> String_copy junk lhs; String_append junk t (chars rhs) 0 }"

partial_function (option) join_loop ::
    "(nat \<Rightarrow> char) \<Rightarrow> String list \<Rightarrow> StringRef \<Rightarrow> size_t \<Rightarrow> String \<Rightarrow> size_t \<Rightarrow> String option" where
  "join_loop junk sequence delim start result index =
     (if index < of_nat (length sequence) then
        (if index \<noteq> start then
           do { d \<leftarrow> String_ref junk delim;
                t \<leftarrow> String_plus junk d (sequence ! unat index);
                result' \<leftarrow> String_append junk result (chars t) 0;
                join_loop junk sequence delim start result' (index + 1) }
         else
           do { result' \<leftarrow> String_append junk result (chars (sequence ! unat index)) 0;
                join_loop junk sequence delim start result' (index + 1) })
      else Some result)"

definition String_join :: "(nat \<Rightarrow> char) \<Rightarrow> String list \<Rightarrow> StringRef \<Rightarrow> size_t \<Rightarrow> String option" where
  "String_join junk sequence delim start =
     (if sequence = [] then String_cstr junk (literal []) 0
      else if length sequence = 1 then String_copy junk (sequence ! 0)
      else join_loop junk sequence delim start String_empty start)"

text \<open>The content of a string: what \<^verbatim>\<open>operator ==\<close> compares, the first \<^verbatim>\<open>length_\<close>
  bytes of the buffer.\<close>

definition content :: "String \<Rightarrow> string option" where
  "content s = view (str s)"


text \<open>A sequence of \<^verbatim>\<open>append\<close> calls, each with its pointer and \<^verbatim>\<open>length\<close> argument: the
  states of the string after each call.\<close>

fun appends :: "(nat \<Rightarrow> char) \<Rightarrow> String \<Rightarrow> (ptr \<times> size_t) list \<Rightarrow> String list option" where
  "appends junk s [] = Some []"
| "appends junk s ((p, len) # xs) =
     do { s' \<leftarrow> String_append junk s p len;
          ss \<leftarrow> appends junk s' xs;
          Some (s' # ss) }"

subsection \<open>Well-formed strings and arguments\<close>

text \<open>A string as the constructors and the mutating operations leave it. Either nothing
  is allocated and length and capacity are zero (a default-constructed or moved-from
  string). Or the string has adopted an array through
  \<^verbatim>\<open>String (UniquePtr <char[]> &&rhs, size_t length)\<close>, which leaves \<^verbatim>\<open>capacity_\<close> zero: then
  \<^verbatim>\<open>length_\<close> bytes of the array exist. Or the buffer was allocated by \<^verbatim>\<open>resize\<close>: then it
  holds \<^verbatim>\<open>capacity_\<close> bytes and \<^verbatim>\<open>length_\<close> is below \<^verbatim>\<open>capacity_\<close>; \<^verbatim>\<open>resize\<close> never
  allocates fewer than twelve bytes.\<close>

definition String_ok :: "String \<Rightarrow> bool" where
  "String_ok s =
     (case str_chars s of
        None \<Rightarrow> str_length s = 0 \<and> str_capacity s = 0
      | Some m \<Rightarrow>
          (str_capacity s = 0 \<and> unat (str_length s) \<le> length m \<and> length m < 2 ^ 64)
          \<or> (length m = unat (str_capacity s) \<and> str_length s < str_capacity s
              \<and> 2 \<le> str_capacity s))"

text \<open>\<open>n\<close> bytes can be read at the pointer of a view.\<close>

definition ref_bytes :: "StringRef \<Rightarrow> nat \<Rightarrow> bool" where
  "ref_bytes v n = (case ref_chars v of None \<Rightarrow> False | Some m \<Rightarrow> n \<le> length m)"

text \<open>The arguments \<^verbatim>\<open>(str, length)\<close> of \<^verbatim>\<open>assign\<close> and \<^verbatim>\<open>append\<close> name readable memory:
  \<^verbatim>\<open>length\<close> bytes when \<^verbatim>\<open>length\<close> is given, a zero-terminated string when it is \<open>0\<close>; and
  the number of bytes they stand for.\<close>

definition arg_ok :: "ptr \<times> size_t \<Rightarrow> bool" where
  "arg_ok a = (case fst a of None \<Rightarrow> False
               | Some m \<Rightarrow> if snd a > 0 then unat (snd a) \<le> length m else kNullChar \<in> set m)"

definition arg_len :: "ptr \<times> size_t \<Rightarrow> nat" where
  "arg_len a = (if snd a > 0 then unat (snd a)
                else (case fst a of None \<Rightarrow> 0
                      | Some m \<Rightarrow> length (takeWhile (\<lambda>c. c \<noteq> kNullChar) m)))"

section \<open>Utf8Tools\<close>

text \<open>\<^verbatim>\<open>int32_t\<close> and \<^verbatim>\<open>int\<close> are 32-bit words, \<^verbatim>\<open>long\<close> a 64-bit word, both read as two's
  complement where the source compares them; \<^verbatim>\<open>wchar_t\<close> is the 32-bit type of the
  platforms where \<^verbatim>\<open>long\<close> has 64 bits. Whether plain \<^verbatim>\<open>char\<close> is signed depends on the
  platform and is the parameter \<open>char_signed\<close>.\<close>

type_synonym int32 = "32 word"
type_synonym long = "64 word"

record Utf8Table =
  cmask :: int32
  cval :: int32
  shift :: int32
  lmask :: long
  lval :: long

text \<open>The rows \<^verbatim>\<open>buildTable\<close> puts into \<^verbatim>\<open>utfTable_\<close>.\<close>

definition utfTable :: "Utf8Table list" where
  "utfTable = [
     \<lparr>cmask = 0x80, cval = 0x00, shift = 0 * 6, lmask = 0x7f, lval = 0\<rparr>,
     \<lparr>cmask = 0xe0, cval = 0xc0, shift = 1 * 6, lmask = 0x7ff, lval = 0x80\<rparr>,
     \<lparr>cmask = 0xf0, cval = 0xe0, shift = 2 * 6, lmask = 0xffff, lval = 0x800\<rparr>,
     \<lparr>cmask = 0xf8, cval = 0xf0, shift = 3 * 6, lmask = 0x1fffff, lval = 0x10000\<rparr>,
     \<lparr>cmask = 0xfc, cval = 0xf8, shift = 4 * 6, lmask = 0x3ffffff, lval = 0x200000\<rparr>,
     \<lparr>cmask = 0xfe, cval = 0xfc, shift = 5 * 6, lmask = 0x7fffffff, lval = 0x4000000\<rparr>
  ]"

definition char_to_int :: "bool \<Rightarrow> char \<Rightarrow> int32" where
  "char_to_int char_signed c =
     (if char_signed then scast (of_char c :: 8 word) else ucast (of_char c :: 8 word))"

text \<open>\<^verbatim>\<open>multiByteToWideChar (wchar_t *wide, const char *mbs)\<close>: the loop over the rows
  carries \<^verbatim>\<open>len\<close>, \<^verbatim>\<open>ch\<close>, \<^verbatim>\<open>lval\<close> and \<^verbatim>\<open>mbs\<close>. The result is the returned length and what
  was stored through \<^verbatim>\<open>wide\<close>, if anything.\<close>

fun mb_loop :: "bool \<Rightarrow> Utf8Table list \<Rightarrow> int32 \<Rightarrow> char \<Rightarrow> int32 \<Rightarrow> ptr
    \<Rightarrow> (int32 \<times> int32 option) option" where
  "mb_loop sg [] len ch lv mbs = Some (- 1, None)"
| "mb_loop sg (t # ts) len ch lv mbs =
     (if char_to_int sg ch AND cmask t = cval t then
        (let lv' = (ucast ((scast lv :: long) AND lmask t) :: int32) in
         if (scast lv' :: long) <s lval t then Some (- 1, None)
         else Some (len + 1, Some lv'))
      else
        do { c \<leftarrow> peek (ptr_add mbs 1) 0;
             let test = (char_to_int sg c XOR 0x80) AND 0xff;
             if test AND 0xc0 \<noteq> 0 then Some (- 1, None)
             else mb_loop sg ts (len + 1) ch (push_bit 6 lv OR test) (ptr_add mbs 1) })"

definition multiByteToWideChar :: "bool \<Rightarrow> ptr \<Rightarrow> (int32 \<times> int32 option) option" where
  "multiByteToWideChar sg mbs =
     do { ch \<leftarrow> peek mbs 0; mb_loop sg utfTable 0 ch (char_to_int sg ch) mbs }"

text \<open>The case table \<^verbatim>\<open>upperTable_\<close>, its \<^verbatim>\<open>from\<close> and \<^verbatim>\<open>to\<close> fields as pairs. Code points
  are integers: a \<^verbatim>\<open>wchar_t\<close> compares as its value does, whatever its width and sign.\<close>

definition Utf8MaxChars :: int where
  "Utf8MaxChars = 706"

definition upperTable :: "(int \<times> int) list" where
  "upperTable = [
     (0x0061, 0x0041), (0x0062, 0x0042), (0x0063, 0x0043), (0x0064, 0x0044), (0x0065, 0x0045), (0x0066, 0x0046), (0x0067, 0x0047), (0x0068, 0x0048),
     (0x0069, 0x0049), (0x006a, 0x004a), (0x006b, 0x004b), (0x006c, 0x004c), (0x006d, 0x004d), (0x006e, 0x004e), (0x006f, 0x004f), (0x0070, 0x0050),
     (0x0071, 0x0051), (0x0072, 0x0052), (0x0073, 0x0053), (0x0074, 0x0054), (0x0075, 0x0055), (0x0076, 0x0056), (0x0077, 0x0057), (0x0078, 0x0058),
     (0x0079, 0x0059), (0x007a, 0x005a), (0x00e0, 0x00c0), (0x00e1, 0x00c1), (0x00e2, 0x00c2), (0x00e3, 0x00c3), (0x00e4, 0x00c4), (0x00e5, 0x00c5),
     (0x00e6, 0x00c6), (0x00e7, 0x00c7), (0x00e8, 0x00c8), (0x00e9, 0x00c9), (0x00ea, 0x00ca), (0x00eb, 0x00cb), (0x00ec, 0x00cc), (0x00ed, 0x00cd),
     (0x00ee, 0x00ce), (0x00ef, 0x00cf), (0x00f0, 0x00d0), (0x00f1, 0x00d1), (0x00f2, 0x00d2), (0x00f3, 0x00d3), (0x00f4, 0x00d4), (0x00f5, 0x00d5),
     (0x00f6, 0x00d6), (0x00f8, 0x00d8), (0x00f9, 0x00d9), (0x00fa, 0x00da), (0x00fb, 0x00db), (0x00fc, 0x00dc), (0x00fd, 0x00dd), (0x00fe, 0x00de),
     (0x00ff, 0x0178), (0x0101, 0x0100), (0x0103, 0x0102), (0x0105, 0x0104), (0x0107, 0x0106), (0x0109, 0x0108), (0x010b, 0x010a), (0x010d, 0x010c),
     (0x010f, 0x010e), (0x0111, 0x0110), (0x0113, 0x0112), (0x0115, 0x0114), (0x0117, 0x0116), (0x0119, 0x0118), (0x011b, 0x011a), (0x011d, 0x011c),
     (0x011f, 0x011e), (0x0121, 0x0120), (0x0123, 0x0122), (0x0125, 0x0124), (0x0127, 0x0126), (0x0129, 0x0128), (0x012b, 0x012a), (0x012d, 0x012c),
     (0x012f, 0x012e), (0x0131, 0x0049), (0x0133, 0x0132), (0x0135, 0x0134), (0x0137, 0x0136), (0x013a, 0x0139), (0x013c, 0x013b), (0x013e, 0x013d),
     (0x0140, 0x013f), (0x0142, 0x0141), (0x0144, 0x0143), (0x0146, 0x0145), (0x0148, 0x0147), (0x014b, 0x014a), (0x014d, 0x014c), (0x014f, 0x014e),
     (0x0151, 0x0150), (0x0153, 0x0152), (0x0155, 0x0154), (0x0157, 0x0156), (0x0159, 0x0158), (0x015b, 0x015a), (0x015d, 0x015c), (0x015f, 0x015e),
     (0x0161, 0x0160), (0x0163, 0x0162), (0x0165, 0x0164), (0x0167, 0x0166), (0x0169, 0x0168), (0x016b, 0x016a), (0x016d, 0x016c), (0x016f, 0x016e),
     (0x0171, 0x0170), (0x0173, 0x0172), (0x0175, 0x0174), (0x0177, 0x0176), (0x017a, 0x0179), (0x017c, 0x017b), (0x017e, 0x017d), (0x0183, 0x0182),
     (0x0185, 0x0184), (0x0188, 0x0187), (0x018c, 0x018b), (0x0192, 0x0191), (0x0195, 0x01f6), (0x0199, 0x0198), (0x019e, 0x0220), (0x01a1, 0x01a0),
     (0x01a3, 0x01a2), (0x01a5, 0x01a4), (0x01a8, 0x01a7), (0x01ad, 0x01ac), (0x01b0, 0x01af), (0x01b4, 0x01b3), (0x01b6, 0x01b5), (0x01b9, 0x01b8),
     (0x01bd, 0x01bc), (0x01bf, 0x01f7), (0x01c6, 0x01c4), (0x01c9, 0x01c7), (0x01cc, 0x01ca), (0x01ce, 0x01cd), (0x01d0, 0x01cf), (0x01d2, 0x01d1),
     (0x01d4, 0x01d3), (0x01d6, 0x01d5), (0x01d8, 0x01d7), (0x01da, 0x01d9), (0x01dc, 0x01db), (0x01dd, 0x018e), (0x01df, 0x01de), (0x01e1, 0x01e0),
     (0x01e3, 0x01e2), (0x01e5, 0x01e4), (0x01e7, 0x01e6), (0x01e9, 0x01e8), (0x01eb, 0x01ea), (0x01ed, 0x01ec), (0x01ef, 0x01ee), (0x01f3, 0x01f1),
     (0x01f5, 0x01f4), (0x01f9, 0x01f8), (0x01fb, 0x01fa), (0x01fd, 0x01fc), (0x01ff, 0x01fe), (0x0201, 0x0200), (0x0203, 0x0202), (0x0205, 0x0204),
     (0x0207, 0x0206), (0x0209, 0x0208), (0x020b, 0x020a), (0x020d, 0x020c), (0x020f, 0x020e), (0x0211, 0x0210), (0x0213, 0x0212), (0x0215, 0x0214),
     (0x0217, 0x0216), (0x0219, 0x0218), (0x021b, 0x021a), (0x021d, 0x021c), (0x021f, 0x021e), (0x0223, 0x0222), (0x0225, 0x0224), (0x0227, 0x0226),
     (0x0229, 0x0228), (0x022b, 0x022a), (0x022d, 0x022c), (0x022f, 0x022e), (0x0231, 0x0230), (0x0233, 0x0232), (0x0253, 0x0181), (0x0254, 0x0186),
     (0x0256, 0x0189), (0x0257, 0x018a), (0x0259, 0x018f), (0x025b, 0x0190), (0x0260, 0x0193), (0x0263, 0x0194), (0x0268, 0x0197), (0x0269, 0x0196),
     (0x026f, 0x019c), (0x0272, 0x019d), (0x0275, 0x019f), (0x0280, 0x01a6), (0x0283, 0x01a9), (0x0288, 0x01ae), (0x028a, 0x01b1), (0x028b, 0x01b2),
     (0x0292, 0x01b7), (0x03ac, 0x0386), (0x03ad, 0x0388), (0x03ae, 0x0389), (0x03af, 0x038a), (0x03b1, 0x0391), (0x03b2, 0x0392), (0x03b3, 0x0393),
     (0x03b4, 0x0394), (0x03b5, 0x0395), (0x03b6, 0x0396), (0x03b7, 0x0397), (0x03b8, 0x0398), (0x03b9, 0x0345), (0x03ba, 0x039a), (0x03bb, 0x039b),
     (0x03bc, 0x00b5), (0x03bd, 0x039d), (0x03be, 0x039e), (0x03bf, 0x039f), (0x03c0, 0x03a0), (0x03c1, 0x03a1), (0x03c3, 0x03a3), (0x03c4, 0x03a4),
     (0x03c5, 0x03a5), (0x03c6, 0x03a6), (0x03c7, 0x03a7), (0x03c8, 0x03a8), (0x03c9, 0x03a9), (0x03ca, 0x03aa), (0x03cb, 0x03ab), (0x03cc, 0x038c),
     (0x03cd, 0x038e), (0x03ce, 0x038f), (0x03d9, 0x03d8), (0x03db, 0x03da), (0x03dd, 0x03dc), (0x03df, 0x03de), (0x03e1, 0x03e0), (0x03e3, 0x03e2),
     (0x03e5, 0x03e4), (0x03e7, 0x03e6), (0x03e9, 0x03e8), (0x03eb, 0x03ea), (0x03ed, 0x03ec), (0x03ef, 0x03ee), (0x03f2, 0x03f9), (0x03f8, 0x03f7),
     (0x03fb, 0x03fa), (0x0430, 0x0410), (0x0431, 0x0411), (0x0432, 0x0412), (0x0433, 0x0413), (0x0434, 0x0414), (0x0435, 0x0415), (0x0436, 0x0416),
     (0x0437, 0x0417), (0x0438, 0x0418), (0x0439, 0x0419), (0x043a, 0x041a), (0x043b, 0x041b), (0x043c, 0x041c), (0x043d, 0x041d), (0x043e, 0x041e),
     (0x043f, 0x041f), (0x0440, 0x0420), (0x0441, 0x0421), (0x0442, 0x0422), (0x0443, 0x0423), (0x0444, 0x0424), (0x0445, 0x0425), (0x0446, 0x0426),
     (0x0447, 0x0427), (0x0448, 0x0428), (0x0449, 0x0429), (0x044a, 0x042a), (0x044b, 0x042b), (0x044c, 0x042c), (0x044d, 0x042d), (0x044e, 0x042e),
     (0x044f, 0x042f), (0x0450, 0x0400), (0x0451, 0x0401), (0x0452, 0x0402), (0x0453, 0x0403), (0x0454, 0x0404), (0x0455, 0x0405), (0x0456, 0x0406),
     (0x0457, 0x0407), (0x0458, 0x0408), (0x0459, 0x0409), (0x045a, 0x040a), (0x045b, 0x040b), (0x045c, 0x040c), (0x045d, 0x040d), (0x045e, 0x040e),
     (0x045f, 0x040f), (0x0461, 0x0460), (0x0463, 0x0462), (0x0465, 0x0464), (0x0467, 0x0466), (0x0469, 0x0468), (0x046b, 0x046a), (0x046d, 0x046c),
     (0x046f, 0x046e), (0x0471, 0x0470), (0x0473, 0x0472), (0x0475, 0x0474), (0x0477, 0x0476), (0x0479, 0x0478), (0x047b, 0x047a), (0x047d, 0x047c),
     (0x047f, 0x047e), (0x0481, 0x0480), (0x048b, 0x048a), (0x048d, 0x048c), (0x048f, 0x048e), (0x0491, 0x0490), (0x0493, 0x0492), (0x0495, 0x0494),
     (0x0497, 0x0496), (0x0499, 0x0498), (0x049b, 0x049a), (0x049d, 0x049c), (0x049f, 0x049e), (0x04a1, 0x04a0), (0x04a3, 0x04a2), (0x04a5, 0x04a4),
     (0x04a7, 0x04a6), (0x04a9, 0x04a8), (0x04ab, 0x04aa), (0x04ad, 0x04ac), (0x04af, 0x04ae), (0x04b1, 0x04b0), (0x04b3, 0x04b2), (0x04b5, 0x04b4),
     (0x04b7, 0x04b6), (0x04b9, 0x04b8), (0x04bb, 0x04ba), (0x04bd, 0x04bc), (0x04bf, 0x04be), (0x04c2, 0x04c1), (0x04c4, 0x04c3), (0x04c6, 0x04c5),
     (0x04c8, 0x04c7), (0x04ca, 0x04c9), (0x04cc, 0x04cb), (0x04ce, 0x04cd), (0x04d1, 0x04d0), (0x04d3, 0x04d2), (0x04d5, 0x04d4), (0x04d7, 0x04d6),
     (0x04d9, 0x04d8), (0x04db, 0x04da), (0x04dd, 0x04dc), (0x04df, 0x04de), (0x04e1, 0x04e0), (0x04e3, 0x04e2), (0x04e5, 0x04e4), (0x04e7, 0x04e6),
     (0x04e9, 0x04e8), (0x04eb, 0x04ea), (0x04ed, 0x04ec), (0x04ef, 0x04ee), (0x04f1, 0x04f0), (0x04f3, 0x04f2), (0x04f5, 0x04f4), (0x04f9, 0x04f8),
     (0x0501, 0x0500), (0x0503, 0x0502), (0x0505, 0x0504), (0x0507, 0x0506), (0x0509, 0x0508), (0x050b, 0x050a), (0x050d, 0x050c), (0x050f, 0x050e),
     (0x0561, 0x0531), (0x0562, 0x0532), (0x0563, 0x0533), (0x0564, 0x0534), (0x0565, 0x0535), (0x0566, 0x0536), (0x0567, 0x0537), (0x0568, 0x0538),
     (0x0569, 0x0539), (0x056a, 0x053a), (0x056b, 0x053b), (0x056c, 0x053c), (0x056d, 0x053d), (0x056e, 0x053e), (0x056f, 0x053f), (0x0570, 0x0540),
     (0x0571, 0x0541), (0x0572, 0x0542), (0x0573, 0x0543), (0x0574, 0x0544), (0x0575, 0x0545), (0x0576, 0x0546), (0x0577, 0x0547), (0x0578, 0x0548),
     (0x0579, 0x0549), (0x057a, 0x054a), (0x057b, 0x054b), (0x057c, 0x054c), (0x057d, 0x054d), (0x057e, 0x054e), (0x057f, 0x054f), (0x0580, 0x0550),
     (0x0581, 0x0551), (0x0582, 0x0552), (0x0583, 0x0553), (0x0584, 0x0554), (0x0585, 0x0555), (0x0586, 0x0556), (0x1e01, 0x1e00), (0x1e03, 0x1e02),
     (0x1e05, 0x1e04), (0x1e07, 0x1e06), (0x1e09, 0x1e08), (0x1e0b, 0x1e0a), (0x1e0d, 0x1e0c), (0x1e0f, 0x1e0e), (0x1e11, 0x1e10), (0x1e13, 0x1e12),
     (0x1e15, 0x1e14), (0x1e17, 0x1e16), (0x1e19, 0x1e18), (0x1e1b, 0x1e1a), (0x1e1d, 0x1e1c), (0x1e1f, 0x1e1e), (0x1e21, 0x1e20), (0x1e23, 0x1e22),
     (0x1e25, 0x1e24), (0x1e27, 0x1e26), (0x1e29, 0x1e28), (0x1e2b, 0x1e2a), (0x1e2d, 0x1e2c), (0x1e2f, 0x1e2e), (0x1e31, 0x1e30), (0x1e33, 0x1e32),
     (0x1e35, 0x1e34), (0x1e37, 0x1e36), (0x1e39, 0x1e38), (0x1e3b, 0x1e3a), (0x1e3d, 0x1e3c), (0x1e3f, 0x1e3e), (0x1e41, 0x1e40), (0x1e43, 0x1e42),
     (0x1e45, 0x1e44), (0x1e47, 0x1e46), (0x1e49, 0x1e48), (0x1e4b, 0x1e4a), (0x1e4d, 0x1e4c), (0x1e4f, 0x1e4e), (0x1e51, 0x1e50), (0x1e53, 0x1e52),
     (0x1e55, 0x1e54), (0x1e57, 0x1e56), (0x1e59, 0x1e58), (0x1e5b, 0x1e5a), (0x1e5d, 0x1e5c), (0x1e5f, 0x1e5e), (0x1e61, 0x1e60), (0x1e63, 0x1e62),
     (0x1e65, 0x1e64), (0x1e67, 0x1e66), (0x1e69, 0x1e68), (0x1e6b, 0x1e6a), (0x1e6d, 0x1e6c), (0x1e6f, 0x1e6e), (0x1e71, 0x1e70), (0x1e73, 0x1e72),
     (0x1e75, 0x1e74), (0x1e77, 0x1e76), (0x1e79, 0x1e78), (0x1e7b, 0x1e7a), (0x1e7d, 0x1e7c), (0x1e7f, 0x1e7e), (0x1e81, 0x1e80), (0x1e83, 0x1e82),
     (0x1e85, 0x1e84), (0x1e87, 0x1e86), (0x1e89, 0x1e88), (0x1e8b, 0x1e8a), (0x1e8d, 0x1e8c), (0x1e8f, 0x1e8e), (0x1e91, 0x1e90), (0x1e93, 0x1e92),
     (0x1e95, 0x1e94), (0x1ea1, 0x1ea0), (0x1ea3, 0x1ea2), (0x1ea5, 0x1ea4), (0x1ea7, 0x1ea6), (0x1ea9, 0x1ea8), (0x1eab, 0x1eaa), (0x1ead, 0x1eac),
     (0x1eaf, 0x1eae), (0x1eb1, 0x1eb0), (0x1eb3, 0x1eb2), (0x1eb5, 0x1eb4), (0x1eb7, 0x1eb6), (0x1eb9, 0x1eb8), (0x1ebb, 0x1eba), (0x1ebd, 0x1ebc),
     (0x1ebf, 0x1ebe), (0x1ec1, 0x1ec0), (0x1ec3, 0x1ec2), (0x1ec5, 0x1ec4), (0x1ec7, 0x1ec6), (0x1ec9, 0x1ec8), (0x1ecb, 0x1eca), (0x1ecd, 0x1ecc),
     (0x1ecf, 0x1ece), (0x1ed1, 0x1ed0), (0x1ed3, 0x1ed2), (0x1ed5, 0x1ed4), (0x1ed7, 0x1ed6), (0x1ed9, 0x1ed8), (0x1edb, 0x1eda), (0x1edd, 0x1edc),
     (0x1edf, 0x1ede), (0x1ee1, 0x1ee0), (0x1ee3, 0x1ee2), (0x1ee5, 0x1ee4), (0x1ee7, 0x1ee6), (0x1ee9, 0x1ee8), (0x1eeb, 0x1eea), (0x1eed, 0x1eec),
     (0x1eef, 0x1eee), (0x1ef1, 0x1ef0), (0x1ef3, 0x1ef2), (0x1ef5, 0x1ef4), (0x1ef7, 0x1ef6), (0x1ef9, 0x1ef8), (0x1f00, 0x1f08), (0x1f01, 0x1f09),
     (0x1f02, 0x1f0a), (0x1f03, 0x1f0b), (0x1f04, 0x1f0c), (0x1f05, 0x1f0d), (0x1f06, 0x1f0e), (0x1f07, 0x1f0f), (0x1f10, 0x1f18), (0x1f11, 0x1f19),
     (0x1f12, 0x1f1a), (0x1f13, 0x1f1b), (0x1f14, 0x1f1c), (0x1f15, 0x1f1d), (0x1f20, 0x1f28), (0x1f21, 0x1f29), (0x1f22, 0x1f2a), (0x1f23, 0x1f2b),
     (0x1f24, 0x1f2c), (0x1f25, 0x1f2d), (0x1f26, 0x1f2e), (0x1f27, 0x1f2f), (0x1f30, 0x1f38), (0x1f31, 0x1f39), (0x1f32, 0x1f3a), (0x1f33, 0x1f3b),
     (0x1f34, 0x1f3c), (0x1f35, 0x1f3d), (0x1f36, 0x1f3e), (0x1f37, 0x1f3f), (0x1f40, 0x1f48), (0x1f41, 0x1f49), (0x1f42, 0x1f4a), (0x1f43, 0x1f4b),
     (0x1f44, 0x1f4c), (0x1f45, 0x1f4d), (0x1f51, 0x1f59), (0x1f53, 0x1f5b), (0x1f55, 0x1f5d), (0x1f57, 0x1f5f), (0x1f60, 0x1f68), (0x1f61, 0x1f69),
     (0x1f62, 0x1f6a), (0x1f63, 0x1f6b), (0x1f64, 0x1f6c), (0x1f65, 0x1f6d), (0x1f66, 0x1f6e), (0x1f67, 0x1f6f), (0x1f70, 0x1fba), (0x1f71, 0x1fbb),
     (0x1f72, 0x1fc8), (0x1f73, 0x1fc9), (0x1f74, 0x1fca), (0x1f75, 0x1fcb), (0x1f76, 0x1fda), (0x1f77, 0x1fdb), (0x1f78, 0x1ff8), (0x1f79, 0x1ff9),
     (0x1f7a, 0x1fea), (0x1f7b, 0x1feb), (0x1f7c, 0x1ffa), (0x1f7d, 0x1ffb), (0x1f80, 0x1f88), (0x1f81, 0x1f89), (0x1f82, 0x1f8a), (0x1f83, 0x1f8b),
     (0x1f84, 0x1f8c), (0x1f85, 0x1f8d), (0x1f86, 0x1f8e), (0x1f87, 0x1f8f), (0x1f90, 0x1f98), (0x1f91, 0x1f99), (0x1f92, 0x1f9a), (0x1f93, 0x1f9b),
     (0x1f94, 0x1f9c), (0x1f95, 0x1f9d), (0x1f96, 0x1f9e), (0x1f97, 0x1f9f), (0x1fa0, 0x1fa8), (0x1fa1, 0x1fa9), (0x1fa2, 0x1faa), (0x1fa3, 0x1fab),
     (0x1fa4, 0x1fac), (0x1fa5, 0x1fad), (0x1fa6, 0x1fae), (0x1fa7, 0x1faf), (0x1fb0, 0x1fb8), (0x1fb1, 0x1fb9), (0x1fb3, 0x1fbc), (0x1fc3, 0x1fcc),
     (0x1fd0, 0x1fd8), (0x1fd1, 0x1fd9), (0x1fe0, 0x1fe8), (0x1fe1, 0x1fe9), (0x1fe5, 0x1fec), (0x1ff3, 0x1ffc), (0x2170, 0x2160), (0x2171, 0x2161),
     (0x2172, 0x2162), (0x2173, 0x2163), (0x2174, 0x2164), (0x2175, 0x2165), (0x2176, 0x2166), (0x2177, 0x2167), (0x2178, 0x2168), (0x2179, 0x2169),
     (0x217a, 0x216a), (0x217b, 0x216b), (0x217c, 0x216c), (0x217d, 0x216d), (0x217e, 0x216e), (0x217f, 0x216f), (0x24d0, 0x24b6), (0x24d1, 0x24b7),
     (0x24d2, 0x24b8), (0x24d3, 0x24b9), (0x24d4, 0x24ba), (0x24d5, 0x24bb), (0x24d6, 0x24bc), (0x24d7, 0x24bd), (0x24d8, 0x24be), (0x24d9, 0x24bf),
     (0x24da, 0x24c0), (0x24db, 0x24c1), (0x24dc, 0x24c2), (0x24dd, 0x24c3), (0x24de, 0x24c4), (0x24df, 0x24c5), (0x24e0, 0x24c6), (0x24e1, 0x24c7),
     (0x24e2, 0x24c8), (0x24e3, 0x24c9), (0x24e4, 0x24ca), (0x24e5, 0x24cb), (0x24e6, 0x24cc), (0x24e7, 0x24cd), (0x24e8, 0x24ce), (0x24e9, 0x24cf),
     (0xff41, 0xff21), (0xff42, 0xff22), (0xff43, 0xff23), (0xff44, 0xff24), (0xff45, 0xff25), (0xff46, 0xff26), (0xff47, 0xff27), (0xff48, 0xff28),
     (0xff49, 0xff29), (0xff4a, 0xff2a), (0xff4b, 0xff2b), (0xff4c, 0xff2c), (0xff4d, 0xff2d), (0xff4e, 0xff2e), (0xff4f, 0xff2f), (0xff50, 0xff30),
     (0xff51, 0xff31), (0xff52, 0xff32), (0xff53, 0xff33), (0xff54, 0xff34), (0xff55, 0xff35), (0xff56, 0xff36), (0xff57, 0xff37), (0xff58, 0xff38),
     (0xff59, 0xff39), (0xff5a, 0xff3a)
  ]"

text \<open>\<^verbatim>\<open>toUpper (wchar_t ch)\<close>: the binary search carries \<^verbatim>\<open>bottom\<close> and \<^verbatim>\<open>top\<close>. An index
  outside the table would be a read outside the array. \<^verbatim>\<open>bottom\<close> never decreases from
  \<open>0\<close>, so the sum that is halved is not negative where the loop body runs and the
  truncating division of the source is \<open>div\<close>.\<close>

function toUpper_loop :: "int \<Rightarrow> int \<Rightarrow> int \<Rightarrow> int option" where
  "toUpper_loop ch bottom top' =
     (if bottom \<le> top' then
        (let mid = (bottom + top') div 2 in
         if 0 \<le> mid \<and> nat mid < length upperTable then
           (let cur = fst (upperTable ! nat mid) in
            if ch = cur then Some (snd (upperTable ! nat mid))
            else if ch > cur then toUpper_loop ch (mid + 1) top'
            else toUpper_loop ch bottom (mid - 1))
         else None)
      else Some ch)"
  by pat_completeness auto
termination
  by (relation "measure (\<lambda>(ch, bottom, top'). nat (top' - bottom + 1))") auto

definition toUpper :: "int \<Rightarrow> int option" where
  "toUpper ch = toUpper_loop ch 0 (Utf8MaxChars - 1)"

text \<open>A decision tree over the runs of consecutive (or alternating) \<^verbatim>\<open>from\<close> code points
  of the table. Every \<^verbatim>\<open>from\<close> field satisfies it and no \<^verbatim>\<open>to\<close> field does, which is
  checked entry by entry below.\<close>

definition isLower :: "int \<Rightarrow> bool" where
  "isLower x =
     (if x < 0x028b then
       (if x < 0x01bd then
         (if x < 0x0192 then
           (if x < 0x014b then
             (if x < 0x00f8 then
               (if x < 0x00e0 then
                 (0x0061 \<le> x \<and> x \<le> 0x007a)
                else
                 (0x00e0 \<le> x \<and> x \<le> 0x00f6))
              else
               (if x < 0x0101 then
                 (0x00f8 \<le> x \<and> x \<le> 0x00ff)
                else
                 (if x < 0x013a then
                   (0x0101 \<le> x \<and> x \<le> 0x0137 \<and> (x - 0x0101) mod 2 = 0)
                  else
                   (0x013a \<le> x \<and> x \<le> 0x0148 \<and> (x - 0x013a) mod 2 = 0))))
            else
             (if x < 0x0183 then
               (if x < 0x017a then
                 (0x014b \<le> x \<and> x \<le> 0x0177 \<and> (x - 0x014b) mod 2 = 0)
                else
                 (0x017a \<le> x \<and> x \<le> 0x017e \<and> (x - 0x017a) mod 2 = 0))
              else
               (if x < 0x0188 then
                 (0x0183 \<le> x \<and> x \<le> 0x0185 \<and> (x - 0x0183) mod 2 = 0)
                else
                 (if x < 0x018c then
                   x = 0x0188
                  else
                   x = 0x018c))))
          else
           (if x < 0x01a8 then
             (if x < 0x0199 then
               (if x < 0x0195 then
                 x = 0x0192
                else
                 x = 0x0195)
              else
               (if x < 0x019e then
                 x = 0x0199
                else
                 (if x < 0x01a1 then
                   x = 0x019e
                  else
                   (0x01a1 \<le> x \<and> x \<le> 0x01a5 \<and> (x - 0x01a1) mod 2 = 0))))
            else
             (if x < 0x01b0 then
               (if x < 0x01ad then
                 x = 0x01a8
                else
                 x = 0x01ad)
              else
               (if x < 0x01b4 then
                 x = 0x01b0
                else
                 (if x < 0x01b9 then
                   (0x01b4 \<le> x \<and> x \<le> 0x01b6 \<and> (x - 0x01b4) mod 2 = 0)
                  else
                   x = 0x01b9)))))
        else
         (if x < 0x0259 then
           (if x < 0x01f3 then
             (if x < 0x01c9 then
               (if x < 0x01c6 then
                 (0x01bd \<le> x \<and> x \<le> 0x01bf \<and> (x - 0x01bd) mod 2 = 0)
                else
                 x = 0x01c6)
              else
               (if x < 0x01cc then
                 x = 0x01c9
                else
                 (if x < 0x01dd then
                   (0x01cc \<le> x \<and> x \<le> 0x01dc \<and> (x - 0x01cc) mod 2 = 0)
                  else
                   (0x01dd \<le> x \<and> x \<le> 0x01ef \<and> (x - 0x01dd) mod 2 = 0))))
            else
             (if x < 0x0223 then
               (if x < 0x01f9 then
                 (0x01f3 \<le> x \<and> x \<le> 0x01f5 \<and> (x - 0x01f3) mod 2 = 0)
                else
                 (0x01f9 \<le> x \<and> x \<le> 0x021f \<and> (x - 0x01f9) mod 2 = 0))
              else
               (if x < 0x0253 then
                 (0x0223 \<le> x \<and> x \<le> 0x0233 \<and> (x - 0x0223) mod 2 = 0)
                else
                 (if x < 0x0256 then
                   (0x0253 \<le> x \<and> x \<le> 0x0254)
                  else
                   (0x0256 \<le> x \<and> x \<le> 0x0257)))))
          else
           (if x < 0x0272 then
             (if x < 0x0263 then
               (if x < 0x0260 then
                 (0x0259 \<le> x \<and> x \<le> 0x025b \<and> (x - 0x0259) mod 2 = 0)
                else
                 x = 0x0260)
              else
               (if x < 0x0268 then
                 x = 0x0263
                else
                 (if x < 0x026f then
                   (0x0268 \<le> x \<and> x \<le> 0x0269)
                  else
                   x = 0x026f)))
            else
             (if x < 0x0280 then
               (if x < 0x0275 then
                 x = 0x0272
                else
                 x = 0x0275)
              else
               (if x < 0x0283 then
                 x = 0x0280
                else
                 (if x < 0x0288 then
                   x = 0x0283
                  else
                   (0x0288 \<le> x \<and> x \<le> 0x028a \<and> (x - 0x0288) mod 2 = 0)))))))
      else
       (if x < 0x1f10 then
         (if x < 0x0461 then
           (if x < 0x03d9 then
             (if x < 0x03ac then
               (if x < 0x0292 then
                 x = 0x028b
                else
                 x = 0x0292)
              else
               (if x < 0x03b1 then
                 (0x03ac \<le> x \<and> x \<le> 0x03af)
                else
                 (if x < 0x03c3 then
                   (0x03b1 \<le> x \<and> x \<le> 0x03c1)
                  else
                   (0x03c3 \<le> x \<and> x \<le> 0x03ce))))
            else
             (if x < 0x03f8 then
               (if x < 0x03f2 then
                 (0x03d9 \<le> x \<and> x \<le> 0x03ef \<and> (x - 0x03d9) mod 2 = 0)
                else
                 x = 0x03f2)
              else
               (if x < 0x03fb then
                 x = 0x03f8
                else
                 (if x < 0x0430 then
                   x = 0x03fb
                  else
                   (0x0430 \<le> x \<and> x \<le> 0x045f)))))
          else
           (if x < 0x0501 then
             (if x < 0x04c2 then
               (if x < 0x048b then
                 (0x0461 \<le> x \<and> x \<le> 0x0481 \<and> (x - 0x0461) mod 2 = 0)
                else
                 (0x048b \<le> x \<and> x \<le> 0x04bf \<and> (x - 0x048b) mod 2 = 0))
              else
               (if x < 0x04d1 then
                 (0x04c2 \<le> x \<and> x \<le> 0x04ce \<and> (x - 0x04c2) mod 2 = 0)
                else
                 (if x < 0x04f9 then
                   (0x04d1 \<le> x \<and> x \<le> 0x04f5 \<and> (x - 0x04d1) mod 2 = 0)
                  else
                   x = 0x04f9)))
            else
             (if x < 0x1e01 then
               (if x < 0x0561 then
                 (0x0501 \<le> x \<and> x \<le> 0x050f \<and> (x - 0x0501) mod 2 = 0)
                else
                 (0x0561 \<le> x \<and> x \<le> 0x0586))
              else
               (if x < 0x1ea1 then
                 (0x1e01 \<le> x \<and> x \<le> 0x1e95 \<and> (x - 0x1e01) mod 2 = 0)
                else
                 (if x < 0x1f00 then
                   (0x1ea1 \<le> x \<and> x \<le> 0x1ef9 \<and> (x - 0x1ea1) mod 2 = 0)
                  else
                   (0x1f00 \<le> x \<and> x \<le> 0x1f07))))))
        else
         (if x < 0x1fb0 then
           (if x < 0x1f60 then
             (if x < 0x1f30 then
               (if x < 0x1f20 then
                 (0x1f10 \<le> x \<and> x \<le> 0x1f15)
                else
                 (0x1f20 \<le> x \<and> x \<le> 0x1f27))
              else
               (if x < 0x1f40 then
                 (0x1f30 \<le> x \<and> x \<le> 0x1f37)
                else
                 (if x < 0x1f51 then
                   (0x1f40 \<le> x \<and> x \<le> 0x1f45)
                  else
                   (0x1f51 \<le> x \<and> x \<le> 0x1f57 \<and> (x - 0x1f51) mod 2 = 0))))
            else
             (if x < 0x1f80 then
               (if x < 0x1f70 then
                 (0x1f60 \<le> x \<and> x \<le> 0x1f67)
                else
                 (0x1f70 \<le> x \<and> x \<le> 0x1f7d))
              else
               (if x < 0x1f90 then
                 (0x1f80 \<le> x \<and> x \<le> 0x1f87)
                else
                 (if x < 0x1fa0 then
                   (0x1f90 \<le> x \<and> x \<le> 0x1f97)
                  else
                   (0x1fa0 \<le> x \<and> x \<le> 0x1fa7)))))
          else
           (if x < 0x1fe5 then
             (if x < 0x1fc3 then
               (if x < 0x1fb3 then
                 (0x1fb0 \<le> x \<and> x \<le> 0x1fb1)
                else
                 x = 0x1fb3)
              else
               (if x < 0x1fd0 then
                 x = 0x1fc3
                else
                 (if x < 0x1fe0 then
                   (0x1fd0 \<le> x \<and> x \<le> 0x1fd1)
                  else
                   (0x1fe0 \<le> x \<and> x \<le> 0x1fe1))))
            else
             (if x < 0x2170 then
               (if x < 0x1ff3 then
                 x = 0x1fe5
                else
                 x = 0x1ff3)
              else
               (if x < 0x24d0 then
                 (0x2170 \<le> x \<and> x \<le> 0x217f)
                else
                 (if x < 0xff41 then
                   (0x24d0 \<le> x \<and> x \<le> 0x24e9)
                  else
                   (0xff41 \<le> x \<and> x \<le> 0xff5a))))))))"

section \<open>Evaluation\<close>

declare find_inner.simps [code] find_outer.simps [code] rfind_char_loop.simps [code]
  rfind_inner.simps [code] rfind_outer.simps [code] split_loop.simps [code]
  grow_loop.simps [code] insert_shift.simps [code] insert_fill.simps [code]
  erase_loop.simps [code] replace_loop.simps [code] join_loop.simps [code]

section \<open>The zero terminator\<close>

text \<open>
  Claim C1. Every mutating operation of \<^verbatim>\<open>String\<close> leaves the byte at position
  \<^verbatim>\<open>length_\<close> zero. \<^verbatim>\<open>erase\<close> and \<^verbatim>\<open>insert\<close> do not: \<^verbatim>\<open>assign\<close> and \<^verbatim>\<open>append\<close> store
  \<^verbatim>\<open>kNullChar\<close> at the new length, these two only move bytes. Erasing the first byte of
  \<^verbatim>\<open>"ab"\<close> leaves length \<open>1\<close> and the byte \<^verbatim>\<open>'b'\<close> at position \<open>1\<close>; inserting \<^verbatim>\<open>"X"\<close> at
  index \<open>1\<close> into a string that held \<^verbatim>\<open>"abcdefghij"\<close> and was assigned \<^verbatim>\<open>"ab"\<close> gives
  \<^verbatim>\<open>"aXb"\<close> with the byte \<^verbatim>\<open>'d'\<close> at position \<open>3\<close>, whatever fresh memory holds.
\<close>

theorem erase_insert_lose_terminator:
  "do { s \<leftarrow> String_cstr junk (literal ''ab'') 0;
        (s', r) \<leftarrow> String_erase s 0 1;
        Some (peek (str_chars s) (str_length s), r, str_length s',
              peek (str_chars s') (str_length s')) }
     = Some (Some kNullChar, True, 1, Some CHR ''b'')
   \<and> do { s0 \<leftarrow> String_cstr junk (literal ''abcdefghij'') 0;
          s \<leftarrow> String_assign junk s0 (literal ''ab'') 0;
          x \<leftarrow> StringRef_cstr (literal ''X'');
          (s', r) \<leftarrow> String_insert junk s 1 x;
          Some (peek (str_chars s) (str_length s), r, content s', str_length s',
                peek (str_chars s') (str_length s')) }
     = Some (Some kNullChar, True, Some ''aXb'', 3, Some CHR ''d'')"
  by code_simp

section \<open>Splitting and joining\<close>

text \<open>
  Claim C3. Joining \<^verbatim>\<open>s.split (d)\<close> with \<^verbatim>\<open>d\<close> gives \<^verbatim>\<open>s\<close> back, for a non-empty \<^verbatim>\<open>d\<close>.
  The code does not: \<^verbatim>\<open>String ("a,,b").split (",")\<close> is \<^verbatim>\<open>"a"\<close>, \<^verbatim>\<open>",b"\<close>, \<^verbatim>\<open>"b"\<close>, because
  the empty segment becomes a \<^verbatim>\<open>String\<close> through \<^verbatim>\<open>assign (chars, 0)\<close>, where
  \<^verbatim>\<open>calcLength\<close> reads the length \<open>0\<close> as "not given" and measures the rest of the text;
  joined with \<^verbatim>\<open>","\<close> this is \<^verbatim>\<open>"a,,b,b"\<close>. With the two-byte delimiter \<^verbatim>\<open>"::"\<close> the string
  \<^verbatim>\<open>"a::b"\<close> splits into \<^verbatim>\<open>"a"\<close> and \<^verbatim>\<open>":b"\<close>, because the scan steps over one byte of
  the delimiter only, and the join is \<^verbatim>\<open>"a:::b"\<close>.
\<close>

theorem split_join_not_identity:
  "do { s \<leftarrow> String_cstr junk (literal ''a,,b'') 0;
        d \<leftarrow> StringRef_cstr (literal '','');
        ts \<leftarrow> String_split junk s d;
        j \<leftarrow> String_join junk ts d 0;
        Some (content s, map content ts, content j) }
     = Some (Some ''a,,b'', [Some ''a'', Some '',b'', Some ''b''], Some ''a,,b,b'')
   \<and> do { s \<leftarrow> String_cstr junk (literal ''a::b'') 0;
          d \<leftarrow> StringRef_cstr (literal ''::'');
          ts \<leftarrow> String_split junk s d;
          j \<leftarrow> String_join junk ts d 0;
          Some (content s, map content ts, content j) }
     = Some (Some ''a::b'', [Some ''a'', Some '':b''], Some ''a:::b'')"
  by code_simp

text \<open>
  Claim C4. \<^verbatim>\<open>v.split (d)\<close> yields the segments of \<^verbatim>\<open>v\<close> between the occurrences of \<^verbatim>\<open>d\<close>.
  For the views of \<^verbatim>\<open>"a,b,,c"\<close> and \<^verbatim>\<open>","\<close> it does: four segments, the third empty. For
  \<^verbatim>\<open>"a::b"\<close> and the delimiter \<^verbatim>\<open>"::"\<close> the second segment is \<^verbatim>\<open>":b"\<close>, not \<^verbatim>\<open>"b"\<close>: after a
  match at \<^verbatim>\<open>pos\<close> the next segment starts at \<^verbatim>\<open>pos + 1\<close>, not past the delimiter.
\<close>

theorem split_keeps_delimiter_tail:
  "do { v \<leftarrow> StringRef_cstr (literal ''a::b'');
        d \<leftarrow> StringRef_cstr (literal ''::'');
        ts \<leftarrow> StringRef_split Some v d;
        Some (map view ts) }
     = Some [Some ''a'', Some '':b'']
   \<and> do { v \<leftarrow> StringRef_cstr (literal ''a,b,,c'');
          d \<leftarrow> StringRef_cstr (literal '','');
          ts \<leftarrow> StringRef_split Some v d;
          Some (map view ts) }
     = Some [Some ''a'', Some ''b'', Some [], Some ''c'']"
  by code_simp

section \<open>Searching backwards\<close>

text \<open>
  Claim C5. \<^verbatim>\<open>v.rfind (p)\<close> is the rightmost index where \<^verbatim>\<open>p\<close> matches, and
  \<^verbatim>\<open>InvalidIndex\<close> when there is none. For a one-byte pattern the inner loop of the code
  compares nothing, so the first candidate is returned: \<^verbatim>\<open>"abc".rfind ("x")\<close> is \<open>2\<close>
  though \<^verbatim>\<open>"x"\<close> does not occur, and \<^verbatim>\<open>"abc".rfind ("a")\<close> is \<open>2\<close>, not \<open>0\<close>. The
  single-character overload never looks at index \<open>0\<close>: \<^verbatim>\<open>"abc".rfind ('a')\<close> is
  \<^verbatim>\<open>InvalidIndex\<close>.
\<close>

theorem rfind_wrong_index:
  "do { v \<leftarrow> StringRef_cstr (literal ''abc'');
        p \<leftarrow> StringRef_cstr (literal ''x'');
        StringRef_rfind v p } = Some 2
   \<and> do { v \<leftarrow> StringRef_cstr (literal ''abc'');
          p \<leftarrow> StringRef_cstr (literal ''a'');
          StringRef_rfind v p } = Some 2
   \<and> do { v \<leftarrow> StringRef_cstr (literal ''abc'');
          StringRef_rfind_char v CHR ''a'' } = Some InvalidIndex"
  by code_simp

section \<open>Erasing\<close>

text \<open>
  Claim C7. \<^verbatim>\<open>erase (index, count)\<close> returns false and changes nothing when
  \<^verbatim>\<open>index + count\<close> exceeds the length. The code computes the sum in \<^verbatim>\<open>size_t\<close>: for
  \<^verbatim>\<open>index = 1\<close> and \<^verbatim>\<open>count = SIZE_MAX\<close> it wraps to \<open>0\<close>, the test passes, and
  \<^verbatim>\<open>"abc"\<close> becomes \<^verbatim>\<open>"aaaa"\<close> of length \<open>4\<close> with result true. Where the sum does not
  wrap, \<^verbatim>\<open>erase\<close> does what the claim says: \<open>erase_in_range\<close> and \<open>erase_out_of_range\<close>
  below.
\<close>

theorem erase_sum_wraps:
  "do { s \<leftarrow> String_cstr junk (literal ''abc'') 0;
        (s', r) \<leftarrow> String_erase s 1 (- 1);
        Some (content s, str_length s, r, content s', str_length s') }
     = Some (Some ''abc'', 3, True, Some ''aaaa'', 4)"
  by code_simp

section \<open>Decoding UTF-8\<close>

text \<open>
  Claim C9. Decoding the bytes \<^verbatim>\<open>0xE2 0x82 0xAC\<close> with \<^verbatim>\<open>multiByteToWideChar\<close> stores the
  code point \<^verbatim>\<open>0x20AC\<close> and returns \<open>3\<close>, with \<^verbatim>\<open>char\<close> signed or unsigned.
\<close>

theorem decode_euro:
  "multiByteToWideChar char_signed (Some [CHR 0xE2, CHR 0x82, CHR 0xAC]) = Some (3, Some 0x20AC)"
proof (cases char_signed)
  case True
  have "multiByteToWideChar True (Some [CHR 0xE2, CHR 0x82, CHR 0xAC]) = Some (3, Some 0x20AC)"
    by code_simp
  with True show ?thesis by simp
next
  case False
  have "multiByteToWideChar False (Some [CHR 0xE2, CHR 0x82, CHR 0xAC]) = Some (3, Some 0x20AC)"
    by code_simp
  with False show ?thesis by simp
qed

section \<open>Case mapping\<close>

lemma keys_lower: "list_all (\<lambda>(f, t). isLower f) upperTable"
  by (simp add: upperTable_def isLower_def)

lemma values_not_lower: "list_all (\<lambda>(f, t). \<not> isLower t) upperTable"
  by (simp add: upperTable_def isLower_def)

lemma length_upperTable: "int (length upperTable) = Utf8MaxChars"
  by (simp add: upperTable_def Utf8MaxChars_def)

lemma key_isLower: "(f, t) \<in> set upperTable \<Longrightarrow> isLower f"
  using keys_lower by (auto simp: list_all_iff)

lemma value_not_isLower: "(f, t) \<in> set upperTable \<Longrightarrow> \<not> isLower t"
  using values_not_lower by (auto simp: list_all_iff)

lemma toUpper_loop_result:
  "0 \<le> bottom \<Longrightarrow> top' < Utf8MaxChars \<Longrightarrow>
   \<exists>u. toUpper_loop ch bottom top' = Some u \<and> (u = ch \<or> (ch, u) \<in> set upperTable)"
proof (induction ch bottom top' rule: toUpper_loop.induct)
  case (1 ch bottom top')
  show ?case
  proof (cases "bottom \<le> top'")
    case False
    then show ?thesis by (simp add: toUpper_loop.simps [of ch bottom top'])
  next
    case True
    define mid where "mid = (bottom + top') div 2"
    have mid: "bottom \<le> mid" "mid \<le> top'" "0 \<le> mid" "nat mid < length upperTable"
      using True "1.prems" length_upperTable by (auto simp: mid_def)
    have entry: "upperTable ! nat mid \<in> set upperTable"
      using mid by simp
    consider (hit) "ch = fst (upperTable ! nat mid)"
      | (right) "ch > fst (upperTable ! nat mid)"
      | (left) "ch < fst (upperTable ! nat mid)"
      by linarith
    then show ?thesis
    proof cases
      case hit
      have "(ch, snd (upperTable ! nat mid)) \<in> set upperTable"
        using entry hit by (metis prod.collapse)
      then show ?thesis
        using True mid hit by (simp add: toUpper_loop.simps [of ch bottom top'] mid_def Let_def)
    next
      case right
      have "\<exists>u. toUpper_loop ch (mid + 1) top' = Some u \<and> (u = ch \<or> (ch, u) \<in> set upperTable)"
        using "1.IH"(1) [OF True mid_def _ refl] mid right "1.prems" by simp
      then show ?thesis
        using True mid right by (simp add: toUpper_loop.simps [of ch bottom top'] mid_def Let_def)
    next
      case left
      have "\<exists>u. toUpper_loop ch bottom (mid - 1) = Some u \<and> (u = ch \<or> (ch, u) \<in> set upperTable)"
        using "1.IH"(2) [OF True mid_def _ refl] mid left "1.prems" by simp
      then show ?thesis
        using True mid left by (simp add: toUpper_loop.simps [of ch bottom top'] mid_def Let_def)
    qed
  qed
qed

lemma toUpper_loop_miss:
  "0 \<le> bottom \<Longrightarrow> top' < Utf8MaxChars \<Longrightarrow> \<not> isLower ch \<Longrightarrow> toUpper_loop ch bottom top' = Some ch"
  using toUpper_loop_result [of bottom top' ch] key_isLower by auto

text \<open>
  Claim C8. \<^verbatim>\<open>toUpper\<close> is idempotent on every code point: the search returns, its
  result is the code point itself or the \<^verbatim>\<open>to\<close> field of the entry whose \<^verbatim>\<open>from\<close> field
  it is, and applying \<^verbatim>\<open>toUpper\<close> to the result gives the result again.
\<close>

theorem toUpper_idempotent:
  "\<exists>u. toUpper c = Some u \<and> (u = c \<or> (c, u) \<in> set upperTable) \<and> toUpper u = Some u"
proof -
  obtain u where u: "toUpper c = Some u" "u = c \<or> (c, u) \<in> set upperTable"
    using toUpper_loop_result [of 0 "Utf8MaxChars - 1" c] by (auto simp: toUpper_def)
  from u(2) have "toUpper u = Some u"
  proof
    assume "u = c" with u(1) show ?thesis by simp
  next
    assume "(c, u) \<in> set upperTable"
    then have "\<not> isLower u" by (rule value_not_isLower)
    then show ?thesis unfolding toUpper_def by (intro toUpper_loop_miss) simp_all
  qed
  with u show ?thesis by blast
qed

section \<open>Growth of the buffer\<close>

lemma unat_plus64: "unat a + unat b < 2 ^ 64 \<Longrightarrow> unat (a + b :: size_t) = unat a + unat b"
  using unat_add_lem [of a b] by simp

lemma unat_times64: "unat a * unat b < 2 ^ 64 \<Longrightarrow> unat (a * b :: size_t) = unat a * unat b"
  using unat_mult_lem [of a b] by simp

lemma grow_step:
  fixes c :: size_t
  assumes "unat c < 2 ^ 62"
  shows "unat (c + c * 2 div 3) = unat c + (unat c * 2) div 3"
proof -
  have m: "unat (c * 2) = unat c * 2"
    using assms by (intro unat_times64 [of c 2, simplified]) simp
  have d: "unat (c * 2 div 3) = (unat c * 2) div 3"
    by (simp add: unat_div m)
  show ?thesis
    using assms by (subst unat_plus64) (simp_all add: d)
qed

lemma grow_loop_total:
  assumes "2 \<le> unat c" "unat need \<le> 2 ^ 62"
  shows "\<exists>r. grow_loop need c = Some r \<and> need \<le> r \<and> c \<le> r
            \<and> unat r \<le> max (unat c) (2 * unat need)"
  using assms
proof (induction "unat need - unat c" arbitrary: c rule: less_induct)
  case less
  show ?case
  proof (cases "need > c")
    case False
    then show ?thesis
      by (subst grow_loop.simps) (simp add: word_le_nat_alt word_less_nat_alt)
  next
    case True
    let ?c = "c + c * 2 div 3"
    have lt: "unat c < unat need" using True by (simp add: word_less_nat_alt)
    then have small: "unat c < 2 ^ 62" using less.prems by simp
    have step: "unat ?c = unat c + (unat c * 2) div 3" by (rule grow_step [OF small])
    have up: "unat c < unat ?c" using less.prems(1) by (simp add: step)
    have "\<exists>r. grow_loop need ?c = Some r \<and> need \<le> r \<and> ?c \<le> r
            \<and> unat r \<le> max (unat ?c) (2 * unat need)"
      using less.prems up lt by (intro less.hyps) simp_all
    then obtain r where r: "grow_loop need ?c = Some r" "need \<le> r" "?c \<le> r"
        "unat r \<le> max (unat ?c) (2 * unat need)" by blast
    have "unat ?c \<le> 2 * unat need" using lt by (simp add: step)
    with r(4) have "unat r \<le> max (unat c) (2 * unat need)" by simp
    moreover have "c \<le> r" using up r(3) by (simp add: word_le_nat_alt)
    ultimately show ?thesis
      using True r(1,2) by (subst grow_loop.simps) simp
  qed
qed


lemma String_ok_None: "String_ok s \<Longrightarrow> str_chars s = None \<Longrightarrow> str_length s = 0 \<and> str_capacity s = 0"
  by (simp add: String_ok_def)

lemma unat_lt64: "unat (w :: size_t) < 18446744073709551616"
proof -
  have "unat w < 2 ^ LENGTH(64)" by (rule unsigned_less)
  then show ?thesis by simp
qed

lemma String_ok_Some:
  "String_ok s \<Longrightarrow> str_chars s = Some m \<Longrightarrow>
   unat (str_length s) \<le> length m \<and> length m < 2 ^ 64"
  using unat_lt64 [of "str_capacity s"]
  by (auto simp: String_ok_def word_less_nat_alt)

lemma String_ok_proper:
  "String_ok s \<Longrightarrow> str_chars s = Some m \<Longrightarrow> str_capacity s \<noteq> 0 \<Longrightarrow>
   length m = unat (str_capacity s) \<and> unat (str_length s) < unat (str_capacity s)
   \<and> 2 \<le> unat (str_capacity s)"
  by (simp add: String_ok_def word_less_nat_alt word_le_nat_alt)

lemma String_adopt_ok:
  "unat len \<le> length m \<Longrightarrow> length m < 2 ^ 64 \<Longrightarrow> String_ok (String_adopt (Some m) len)"
  by (simp add: String_ok_def String_adopt_def)

lemma String_okI:
  "str_chars s = Some m \<Longrightarrow> length m = unat (str_capacity s) \<Longrightarrow>
   unat (str_length s) < unat (str_capacity s) \<Longrightarrow> 2 \<le> unat (str_capacity s) \<Longrightarrow> String_ok s"
  by (simp add: String_ok_def word_less_nat_alt word_le_nat_alt)

lemma getGrowFactor_total:
  assumes ok: "String_ok s"
    and small: "unat (str_length s) + unat amount \<le> 2 ^ 60"
    and grow: "\<not> str_length s + amount < str_capacity s"
  shows "\<exists>g. getGrowFactor s amount = Some g
            \<and> unat (g + str_length s) = unat g + unat (str_length s)
            \<and> unat (str_length s) + unat amount + 4 \<le> unat g
            \<and> unat (str_capacity s) \<le> unat g"
proof -
  let ?need = "str_length s + amount"
  let ?c0 = "if str_capacity s \<noteq> 0 then str_capacity s else max 12 (amount + 1)"
  let ?pad = "if amount < 4 then 8 else amount"
  have need: "unat ?need = unat (str_length s) + unat amount"
    using small by (intro unat_plus64) simp
  have cap_le: "unat (str_capacity s) \<le> unat ?need"
    using grow by (simp add: word_less_nat_alt)
  have am1: "unat (amount + 1) = unat amount + 1"
    using small by (subst unat_plus64) simp_all
  have c0_ge: "2 \<le> unat ?c0"
  proof (cases "str_capacity s = 0")
    case True
    then show ?thesis by (simp add: max_def word_le_nat_alt am1)
  next
    case False
    then obtain m where "str_chars s = Some m"
      using ok by (cases "str_chars s") (auto simp: String_ok_None)
    with ok False have "2 \<le> unat (str_capacity s)" by (simp add: String_ok_proper)
    then show ?thesis using False by simp
  qed
  have c0_le: "unat ?c0 \<le> unat ?need + 12"
    using cap_le by (auto simp: max_def word_le_nat_alt am1 need)
  have c0_cap: "unat (str_capacity s) \<le> unat ?c0"
    by (auto simp: unat_eq_zero)
  obtain r where r: "grow_loop ?need ?c0 = Some r" "?need \<le> r" "?c0 \<le> r"
      "unat r \<le> max (unat ?c0) (2 * unat ?need)"
    using grow_loop_total [OF c0_ge, of ?need] small need by auto
  have r_le: "unat r \<le> 2 * unat ?need + 12" using r(4) c0_le by simp
  have pad_le: "unat ?pad \<le> unat amount + 8" by simp
  have pad_ge: "4 \<le> unat ?pad" by (simp add: word_less_nat_alt)
  have g: "unat (r + ?pad) = unat r + unat ?pad"
    using r_le pad_le small need by (intro unat_plus64) simp
  have gl: "unat (r + ?pad + str_length s) = unat (r + ?pad) + unat (str_length s)"
    using r_le pad_le small need g by (intro unat_plus64) simp
  have "getGrowFactor s amount = Some (r + ?pad)"
    using r(1) by (simp add: getGrowFactor_def)
  moreover have "unat ?need + 4 \<le> unat (r + ?pad)"
    using r(2) pad_ge g by (simp add: word_le_nat_alt)
  moreover have "unat (str_capacity s) \<le> unat (r + ?pad)"
    using r(3) c0_cap g by (simp add: word_le_nat_alt)
  ultimately show ?thesis using gl need by auto
qed

lemma resize_total:
  assumes ok: "String_ok s"
    and small: "unat (str_length s) + unat amount \<le> 2 ^ 60"
  shows "\<exists>s' m'. String_resize junk s amount = Some s' \<and> String_ok s'
            \<and> str_chars s' = Some m'
            \<and> str_length s' = str_length s
            \<and> str_capacity s \<le> str_capacity s'
            \<and> unat (str_length s) + unat amount < unat (str_capacity s')
            \<and> take (unat (str_length s)) m' = take (unat (str_length s)) (the (chars s))
            \<and> length m' = unat (str_capacity s') \<and> 2 \<le> unat (str_capacity s')"
proof (cases "str_length s + amount < str_capacity s")
  case True
  then have cap: "str_capacity s \<noteq> 0" by auto
  with ok obtain m where m: "str_chars s = Some m"
    by (cases "str_chars s") (auto simp: String_ok_def)
  have "unat (str_length s + amount) = unat (str_length s) + unat amount"
    using small by (intro unat_plus64) simp
  with True have "unat (str_length s) + unat amount < unat (str_capacity s)"
    by (simp add: word_less_nat_alt)
  then show ?thesis
    using True ok m String_ok_proper [OF ok m cap] by (simp add: String_resize_def chars_def)
next
  case False
  obtain g where g: "getGrowFactor s amount = Some g"
      "unat (g + str_length s) = unat g + unat (str_length s)"
      "unat (str_length s) + unat amount + 4 \<le> unat g"
      "unat (str_capacity s) \<le> unat g"
    using getGrowFactor_total [OF ok small False] by blast
  let ?f = "g + str_length s"
  show ?thesis
  proof (cases "str_chars s")
    case None
    with ok have z: "str_length s = 0" "str_capacity s = 0" by (simp_all add: String_ok_None)
    let ?m = "(map junk [0..<unat ?f])[0 := kNullChar]"
    have "String_resize junk s amount = Some (s\<lparr>str_chars := Some ?m, str_capacity := ?f\<rparr>)"
      using False g None z by (simp add: String_resize_def makeUnique_def poke_def Let_def)
    moreover have "String_ok (s\<lparr>str_chars := Some ?m, str_capacity := ?f\<rparr>)"
      using g z by (intro String_okI [where m = ?m]) simp_all
    ultimately show ?thesis using g z None by (simp add: word_le_nat_alt)
  next
    case (Some m)
    with ok have m: "unat (str_length s) \<le> length m"
      by (simp add: String_ok_Some)
    let ?m = "take (unat (str_length s)) m @ drop (unat (str_length s)) (map junk [0..<unat ?f])"
    have "String_resize junk s amount = Some (s\<lparr>str_chars := Some ?m, str_capacity := ?f\<rparr>)"
      using False g Some m by (simp add: String_resize_def makeUnique_def memcpy_def Let_def)
    moreover have "String_ok (s\<lparr>str_chars := Some ?m, str_capacity := ?f\<rparr>)"
      using g m by (intro String_okI [where m = ?m]) simp_all
    ultimately show ?thesis using g m Some by (simp add: word_le_nat_alt chars_def)
  qed
qed


lemma calcLength_total:
  assumes "arg_ok (p, len0)" "arg_len (p, len0) < 2 ^ 64"
  shows "\<exists>len src. calcLength p len0 = Some len \<and> p = Some src
            \<and> unat len = arg_len (p, len0) \<and> unat len \<le> length src"
proof -
  obtain src where src: "p = Some src"
    using assms(1) by (cases p) (auto simp: arg_ok_def)
  show ?thesis
  proof (cases "len0 > 0")
    case True
    then show ?thesis using assms src by (simp add: calcLength_def arg_ok_def arg_len_def)
  next
    case False
    then have z: "len0 = 0" by (simp add: word_less_nat_alt unat_eq_zero)
    let ?k = "length (takeWhile (\<lambda>c. c \<noteq> kNullChar) src)"
    have k: "?k < 2 ^ 64" using assms(2) src z by (simp add: arg_len_def)
    have "unat (of_nat ?k :: size_t) = ?k"
      using k by (simp add: unat_of_nat)
    moreover have "?k \<le> length src" by (rule length_takeWhile_le)
    ultimately show ?thesis
      using assms(1) src z by (simp add: calcLength_def arg_ok_def arg_len_def strlen_def)
  qed
qed

lemma content_ok:
  "String_ok s \<Longrightarrow> content s = Some (take (unat (str_length s)) (the (chars s)))"
  by (cases "str_chars s")
     (auto simp: content_def view_def str_def chars_def String_ok_def word_less_nat_alt)

lemma append_total:
  assumes ok: "String_ok s"
    and arg: "arg_ok (p, len0)"
    and small: "unat (str_length s) + arg_len (p, len0) \<le> 2 ^ 60"
  shows "\<exists>s'. String_append junk s p len0 = Some s' \<and> String_ok s'
            \<and> unat (str_length s') = unat (str_length s) + arg_len (p, len0)
            \<and> str_capacity s \<le> str_capacity s'
            \<and> str_length s' < str_capacity s'
            \<and> content s' = Some (the (content s) @ take (arg_len (p, len0)) (the p))
            \<and> peek (str_chars s') (str_length s') = Some kNullChar"
proof -
  obtain len src where len: "calcLength p len0 = Some len" "p = Some src"
      "unat len = arg_len (p, len0)" "unat len \<le> length src"
    using calcLength_total [OF arg] small by fastforce
  obtain s1 m1 where s1: "String_resize junk s len = Some s1" "String_ok s1"
      "str_chars s1 = Some m1" "str_length s1 = str_length s"
      "str_capacity s \<le> str_capacity s1"
      "unat (str_length s) + unat len < unat (str_capacity s1)"
      "take (unat (str_length s)) m1 = take (unat (str_length s)) (the (chars s))"
      "length m1 = unat (str_capacity s1)" "2 \<le> unat (str_capacity s1)"
    using resize_total [OF ok, of len junk] small len(3) by auto
  note m1 = s1(8,9)
  let ?L = "unat (str_length s)"
  let ?n = "unat len"
  have sum: "unat (str_length s + len) = ?L + ?n"
    using small len(3) by (intro unat_plus64) simp
  let ?m2 = "take ?L m1 @ take ?n src @ drop (?L + ?n) m1"
  let ?s' = "s1\<lparr>str_chars := Some (?m2[?L + ?n := kNullChar]), str_length := str_length s + len\<rparr>"
  have run: "String_append junk s p len0 = Some ?s'"
    using len s1(1,3-6) m1 sum by (simp add: String_append_def memcpy_def poke_def)
  have ok': "String_ok ?s'"
    using s1(3-6) m1 sum len(4)
    by (intro String_okI [where m = "?m2[?L + ?n := kNullChar]"]) simp_all
  have "content ?s' = Some (take ?L m1 @ take ?n src)"
    using s1(3-6) m1 sum len(4) by (simp add: content_def view_def str_def)
  then have "content ?s' = Some (the (content s) @ take (arg_len (p, len0)) (the p))"
    using s1(7) len by (simp add: content_ok [OF ok])
  moreover have "peek (str_chars ?s') (str_length ?s') = Some kNullChar"
    using s1(3-6) m1 sum len(4) by (simp add: peek_def)
  ultimately show ?thesis
    using run ok' sum len(3) s1(5,6) by (auto simp: word_less_nat_alt)
qed

lemma assign_total:
  assumes ok: "String_ok s"
    and arg: "arg_ok (p, len0)"
    and small: "unat (str_length s) + arg_len (p, len0) \<le> 2 ^ 60"
  shows "\<exists>s'. String_assign junk s p len0 = Some s' \<and> String_ok s'
            \<and> unat (str_length s') = arg_len (p, len0)
            \<and> str_capacity s \<le> str_capacity s'
            \<and> content s' = Some (take (arg_len (p, len0)) (the p))
            \<and> peek (str_chars s') (str_length s') = Some kNullChar"
proof -
  obtain len src where len: "calcLength p len0 = Some len" "p = Some src"
      "unat len = arg_len (p, len0)" "unat len \<le> length src"
    using calcLength_total [OF arg] small by fastforce
  obtain s1 m1 where s1: "String_resize junk s len = Some s1" "String_ok s1"
      "str_chars s1 = Some m1" "str_length s1 = str_length s"
      "str_capacity s \<le> str_capacity s1"
      "unat (str_length s) + unat len < unat (str_capacity s1)"
      "length m1 = unat (str_capacity s1)" "2 \<le> unat (str_capacity s1)"
    using resize_total [OF ok, of len junk] small len(3) by auto
  note m1 = s1(7,8)
  let ?n = "unat len"
  let ?m2 = "take ?n src @ drop ?n m1"
  let ?s' = "s1\<lparr>str_chars := Some (?m2[?n := kNullChar]), str_length := len\<rparr>"
  have run: "String_assign junk s p len0 = Some ?s'"
    using len s1(1,3-6) m1 by (simp add: String_assign_def memcpy_def poke_def)
  have ok': "String_ok ?s'"
    using s1(3-6) m1 len(4)
    by (intro String_okI [where m = "?m2[?n := kNullChar]"]) simp_all
  have "content ?s' = Some (take ?n src)"
    using s1(3-6) m1 len(4) by (simp add: content_def view_def str_def)
  moreover have "peek (str_chars ?s') (str_length ?s') = Some kNullChar"
    using s1(3-6) m1 len(4) by (simp add: peek_def)
  ultimately show ?thesis
    using run ok' len s1(5) by auto
qed


text \<open>
  Claim C2. Along every sequence of \<^verbatim>\<open>append\<close> calls on a well-formed string the
  capacity never decreases, and after each call it is above the length. The calls are
  given readable arguments, and the final length stays below \<open>2\<^sup>6\<^sup>0\<close>, so that no
  size computed by \<^verbatim>\<open>resize\<close> and \<^verbatim>\<open>getGrowFactor\<close> wraps.
\<close>

theorem append_capacity_grows:
  assumes "String_ok s" "list_all arg_ok xs"
    and "unat (str_length s) + sum_list (map arg_len xs) \<le> 2 ^ 60"
  shows "\<exists>ss. appends junk s xs = Some ss \<and> length ss = length xs
            \<and> sorted (map str_capacity (s # ss))
            \<and> list_all (\<lambda>t. str_length t < str_capacity t) ss"
  using assms
proof (induction xs arbitrary: s)
  case Nil
  then show ?case by simp
next
  case (Cons x xs)
  obtain p len0 where x: "x = (p, len0)" by (cases x)
  obtain s' where s': "String_append junk s p len0 = Some s'" "String_ok s'"
      "unat (str_length s') = unat (str_length s) + arg_len (p, len0)"
      "str_capacity s \<le> str_capacity s'" "str_length s' < str_capacity s'"
    using append_total [of s p len0 junk] Cons.prems x by auto
  obtain ss where ss: "appends junk s' xs = Some ss" "length ss = length xs"
      "sorted (map str_capacity (s' # ss))"
      "list_all (\<lambda>t. str_length t < str_capacity t) ss"
    using Cons.IH [of s'] Cons.prems s'(2,3) x by auto
  have "appends junk s (x # xs) = Some (s' # ss)"
    using s'(1) ss(1) x by simp
  moreover have "sorted (map str_capacity (s # s' # ss))"
    using s'(4) ss(3) by (auto dest: order_trans)
  ultimately show ?case using ss(2,4) s'(5) by simp
qed

theorem append_capacity_grows_witness:
  "String_ok String_empty
   \<and> list_all arg_ok [(literal ''hello'', 0), (literal '' world'', 0)]
   \<and> (\<exists>ss. appends (\<lambda>n. kNullChar) String_empty [(literal ''hello'', 0), (literal '' world'', 0)] = Some ss
         \<and> sorted (map str_capacity (String_empty # ss))
         \<and> list_all (\<lambda>t. str_length t < str_capacity t) ss)"
proof -
  have h1: "String_ok String_empty"
    by (simp add: String_ok_def String_empty_def)
  have h2: "list_all arg_ok [(literal ''hello'', 0), (literal '' world'', 0)]"
    by (simp add: arg_ok_def literal_def)
  have h3: "unat (str_length String_empty)
      + sum_list (map arg_len [(literal ''hello'', 0), (literal '' world'', 0)]) \<le> 2 ^ 60"
    by (simp add: arg_len_def literal_def String_empty_def)
  show ?thesis
    using append_capacity_grows [OF h1 h2 h3, of "\<lambda>n. kNullChar"] h1 h2 by blast
qed

lemma takeWhile_take_stop:
  assumes "x \<in> set (take n xs)" "\<not> P x"
  shows "takeWhile P xs = takeWhile P (take n xs)"
proof -
  have "takeWhile P (take n xs @ drop n xs) = takeWhile P (take n xs)"
    using assms by (rule takeWhile_append1)
  then show ?thesis by simp
qed

lemma takeWhile_stops_short:
  "x \<in> set xs \<Longrightarrow> \<not> P x \<Longrightarrow> length (takeWhile P xs) < length xs"
  by (induction xs) auto

lemma copy_from_total:
  assumes ok: "String_ok s" and cs: "content s = Some cs" and z: "kNullChar \<in> set cs"
    and small: "unat (str_length s) \<le> 2 ^ 59"
    and okt: "String_ok t" and smallt: "unat (str_length t) \<le> 2 ^ 59"
  shows "\<exists>c. String_assign junk t (chars s) 0 = Some c \<and> String_ok c
            \<and> content c = Some (takeWhile (\<lambda>x. x \<noteq> kNullChar) cs)
            \<and> str_length c < str_length s"
proof -
  let ?P = "\<lambda>x. x \<noteq> kNullChar"
  let ?L = "unat (str_length s)"
  obtain m where m: "chars s = Some m" by (cases "str_chars s") (simp_all add: chars_def)
  have cs_eq: "cs = take ?L m" using content_ok [OF ok] cs m by simp
  have tw: "takeWhile ?P m = takeWhile ?P cs"
    unfolding cs_eq using z [unfolded cs_eq] by (rule takeWhile_take_stop) simp
  have k_lt: "length (takeWhile ?P cs) < length cs"
    using z by (rule takeWhile_stops_short) simp
  have len_cs: "length cs \<le> ?L" by (simp add: cs_eq)
  have arg: "arg_ok (chars s, 0)"
    using z by (auto simp: arg_ok_def m cs_eq dest: in_set_takeD)
  have al: "arg_len (chars s, 0) = length (takeWhile ?P cs)"
    by (simp add: arg_len_def m tw)
  have bound: "unat (str_length t) + arg_len (chars s, 0) \<le> 2 ^ 60"
    using k_lt len_cs small smallt al by simp
  obtain c where c: "String_assign junk t (chars s) 0 = Some c" "String_ok c"
      "unat (str_length c) = arg_len (chars s, 0)"
      "content c = Some (take (arg_len (chars s, 0)) (the (chars s)))"
    using assign_total [OF okt arg bound, of junk] by blast
  have "take (length (takeWhile ?P m)) m = takeWhile ?P m"
    by (rule takeWhile_eq_take [symmetric])
  then have "content c = Some (takeWhile ?P cs)"
    using c(4) al [unfolded m] by (simp add: m tw)
  moreover have "str_length c < str_length s"
    using c(3) al k_lt len_cs by (simp add: word_less_nat_alt)
  ultimately show ?thesis using c(1,2) by blast
qed

text \<open>
  Claim C10. The copy constructor and the copy assignment pass \<^verbatim>\<open>chars ()\<close> of the source
  with length \<open>0\<close>, so \<^verbatim>\<open>calcLength\<close> measures up to the first zero byte: when the
  content of the source holds a zero byte, the content of the copy is the part before
  the first one, and the copy is shorter than the source. The witness builds such a
  source with the constructor that takes an explicit length.
\<close>

theorem copy_stops_at_first_zero:
  assumes "String_ok s" "content s = Some cs" "kNullChar \<in> set cs"
    and "unat (str_length s) \<le> 2 ^ 59"
    and "String_ok t" "unat (str_length t) \<le> 2 ^ 59"
  shows "(\<exists>c. String_copy junk s = Some c
            \<and> content c = Some (takeWhile (\<lambda>x. x \<noteq> kNullChar) cs)
            \<and> str_length c < str_length s)
       \<and> (\<exists>c. copy_assign junk t s = Some c
            \<and> content c = Some (takeWhile (\<lambda>x. x \<noteq> kNullChar) cs)
            \<and> str_length c < str_length s)"
proof -
  have e: "String_ok String_empty" "unat (str_length String_empty) \<le> 2 ^ 59"
    by (simp_all add: String_ok_def String_empty_def)
  show ?thesis
    using copy_from_total [OF assms(1-4) e, of junk] copy_from_total [OF assms, of junk]
    unfolding String_copy_def copy_assign_def by (intro conjI) blast+
qed


theorem copy_stops_at_first_zero_witness:
  "\<exists>s. String_cstr (\<lambda>n. kNullChar) (Some (''ab'' @ [kNullChar] @ ''cd'' @ [kNullChar])) 5 = Some s
       \<and> String_ok s
       \<and> content s = Some (''ab'' @ [kNullChar] @ ''cd'')
       \<and> (\<exists>c. String_copy (\<lambda>n. kNullChar) s = Some c \<and> content c = Some ''ab''
              \<and> str_length c < str_length s)
       \<and> (\<exists>c. copy_assign (\<lambda>n. kNullChar) String_empty s = Some c \<and> content c = Some ''ab''
              \<and> str_length c < str_length s)"
proof -
  let ?J = "\<lambda>n::nat. kNullChar"
  let ?src = "Some (''ab'' @ [kNullChar] @ ''cd'' @ [kNullChar])"
  have e: "String_ok String_empty" "unat (str_length String_empty) \<le> 2 ^ 59"
    by (simp_all add: String_ok_def String_empty_def)
  have a: "arg_ok (?src, 5)" "arg_len (?src, 5) = 5"
    by (simp_all add: arg_ok_def arg_len_def)
  obtain s where s: "String_assign ?J String_empty ?src 5 = Some s" "String_ok s"
      "unat (str_length s) = arg_len (?src, 5)"
      "content s = Some (take (arg_len (?src, 5)) (the ?src))"
    using assign_total [OF e(1) a(1), of ?J] a(2) e(2) by auto
  have cs: "content s = Some (''ab'' @ [kNullChar] @ ''cd'')"
    using s(4) a(2) by simp
  have z: "kNullChar \<in> set (''ab'' @ [kNullChar] @ ''cd'')" by simp
  have small: "unat (str_length s) \<le> 2 ^ 59" using s(3) a(2) by simp
  show ?thesis
    using copy_stops_at_first_zero [OF s(2) cs z small e, of ?J] s(1,2) cs
    by (simp add: String_cstr_def)
qed

section \<open>Searching forwards\<close>

lemma unat_suc64: "unat (i :: size_t) < 2 ^ 64 - 1 \<Longrightarrow> unat (i + 1) = unat i + 1"
  using unat_plus64 [of i 1] by simp

lemma find_inner_total:
  assumes hay: "ref_chars v = Some m" "unat (ref_length v) \<le> length m"
    and pat: "ref_chars pattern = Some pm" "unat (ref_length pattern) \<le> length pm"
    and range: "unat i + unat (ref_length pattern) \<le> unat (ref_length v)"
    and idx: "index \<le> ref_length pattern"
  shows "\<exists>r. find_inner v pattern i index = Some r \<and> r \<le> ref_length pattern"
  using idx
proof (induction "unat (ref_length pattern) - unat index" arbitrary: index rule: less_induct)
  case less
  show ?case
  proof (cases "index < ref_length pattern")
    case False
    then show ?thesis using less.prems by (subst find_inner.simps) simp
  next
    case True
    then have lt: "unat index < unat (ref_length pattern)" by (simp add: word_less_nat_alt)
    have vlen: "unat (ref_length v) < 2 ^ 64" using unat_lt64 [of "ref_length v"] by simp
    have sum: "unat (i + index) = unat i + unat index"
      using lt range vlen by (intro unat_plus64) simp
    have suc: "unat (index + 1) = unat index + 1"
      using lt unat_lt64 [of "ref_length pattern"] by (intro unat_suc64) simp
    have r0: "peek (ref_chars v) index = Some (m ! unat index)"
      using hay lt range by (simp add: peek_def)
    have r1: "peek (ref_chars v) (i + index) = Some (m ! (unat i + unat index))"
      using hay lt range sum by (simp add: peek_def)
    have r2: "peek (ref_chars pattern) index = Some (pm ! unat index)"
      using pat lt by (simp add: peek_def)
    have "\<exists>r. find_inner v pattern i (index + 1) = Some r \<and> r \<le> ref_length pattern"
      using lt suc by (intro less.hyps) (simp_all add: word_le_nat_alt)
    then show ?thesis
      using True r0 r1 r2 by (subst find_inner.simps) (auto simp: word_le_nat_alt word_less_nat_alt)
  qed
qed

lemma find_outer_total:
  assumes hay: "ref_chars v = Some m" "unat (ref_length v) \<le> length m"
    and pat: "ref_chars pattern = Some pm" "unat (ref_length pattern) < length pm"
    and le: "ref_length pattern \<le> ref_length v"
    and small: "unat (ref_length v) < 2 ^ 64 - 1"
  shows "\<exists>r. find_outer v pattern i = Some r
            \<and> (r = InvalidIndex \<or> (i \<le> r \<and> unat r + unat (ref_length pattern) \<le> unat (ref_length v)))"
proof (induction "unat (ref_length v - ref_length pattern) + 1 - unat i" arbitrary: i rule: less_induct)
  case less
  have diff: "unat (ref_length v - ref_length pattern) = unat (ref_length v) - unat (ref_length pattern)"
    using le by (simp add: unat_sub)
  have ple: "unat (ref_length pattern) \<le> unat (ref_length v)"
    using le by (simp add: word_le_nat_alt)
  show ?case
  proof (cases "i \<le> ref_length v - ref_length pattern")
    case False
    then show ?thesis by (subst find_outer.simps) simp
  next
    case True
    then have ile: "unat i \<le> unat (ref_length v) - unat (ref_length pattern)"
      by (simp add: word_le_nat_alt diff)
    then have range: "unat i + unat (ref_length pattern) \<le> unat (ref_length v)"
      using ple by simp
    obtain index where index: "find_inner v pattern i 0 = Some index" "index \<le> ref_length pattern"
      using find_inner_total [OF hay pat(1) _ range, of 0] pat(2) by auto
    have rp: "peek (ref_chars pattern) index = Some (pm ! unat index)"
      using pat index(2) by (simp add: peek_def word_le_nat_alt)
    have suc: "unat (i + 1) = unat i + 1"
      using ile small by (intro unat_suc64) simp
    have "\<exists>r. find_outer v pattern (i + 1) = Some r
            \<and> (r = InvalidIndex \<or> (i + 1 \<le> r \<and> unat r + unat (ref_length pattern) \<le> unat (ref_length v)))"
      using ile suc diff by (intro less.hyps) simp
    then obtain r where r: "find_outer v pattern (i + 1) = Some r"
        "r = InvalidIndex \<or> (i + 1 \<le> r \<and> unat r + unat (ref_length pattern) \<le> unat (ref_length v))"
      by blast
    have "r = InvalidIndex \<or> (i \<le> r \<and> unat r + unat (ref_length pattern) \<le> unat (ref_length v))"
      using r(2) suc by (auto simp: word_le_nat_alt)
    then show ?thesis
      using True index(1) rp r(1) range by (subst find_outer.simps) auto
  qed
qed

lemma StringRef_find_total:
  assumes hay: "ref_chars v = Some m" "unat (ref_length v) \<le> length m"
    and pat: "ref_chars pattern = Some pm" "unat (ref_length pattern) < length pm"
    and small: "unat (ref_length v) < 2 ^ 64 - 1"
  shows "\<exists>r. StringRef_find v pattern start = Some r
            \<and> (r = InvalidIndex \<or> (start \<le> r \<and> unat r + unat (ref_length pattern) \<le> unat (ref_length v)))"
proof (cases "ref_length pattern > ref_length v \<or> start > ref_length v")
  case True
  then show ?thesis by (auto simp: StringRef_find_def)
next
  case False
  then have "ref_length pattern \<le> ref_length v" by (simp add: not_less)
  from find_outer_total [OF hay pat this small, of start] False
  show ?thesis by (simp add: StringRef_find_def)
qed

section \<open>Erasing without wrap-around\<close>

lemma erase_loop_spec:
  assumes "str_chars s = Some m"
    and "unat (str_length s) + unat count \<le> length m" "length m < 2 ^ 64"
    and "unat i \<le> unat (str_length s)"
  shows "erase_loop s count i =
           Some (s\<lparr>str_chars := Some (take (unat i) m
                   @ take (unat (str_length s) - unat i) (drop (unat i + unat count) m)
                   @ drop (unat (str_length s)) m)\<rparr>)"
  using assms
proof (induction "unat (str_length s) - unat i" arbitrary: s m i rule: less_induct)
  case less
  let ?L = "unat (str_length s)"
  let ?k = "unat count"
  show ?case
  proof (cases "i < str_length s")
    case False
    then have "unat i = ?L" using less.prems(4) by (simp add: word_less_nat_alt)
    then show ?thesis
      using False less.prems(1) by (subst erase_loop.simps) simp
  next
    case True
    then have lt: "unat i < ?L" by (simp add: word_less_nat_alt)
    have sum: "unat (i + count) = unat i + ?k"
      using lt less.prems(2,3) by (intro unat_plus64) simp
    have suc: "unat (i + 1) = unat i + 1"
      using lt less.prems(2,3) by (intro unat_suc64) simp
    have inb: "unat i + ?k < length m" "unat i < length m"
      using lt less.prems(2) by simp_all
    let ?c = "m ! (unat i + ?k)"
    let ?m1 = "m[unat i := ?c]"
    let ?s1 = "s\<lparr>str_chars := Some ?m1\<rparr>"
    have get: "at_get s (i + count) = Some ?c"
      using less.prems(1) inb sum by (simp add: at_get_def chars_def peek_def)
    have set: "at_set s i ?c = Some ?s1"
      using less.prems(1) inb by (simp add: at_set_def poke_def)
    have ih: "erase_loop ?s1 count (i + 1) =
           Some (?s1\<lparr>str_chars := Some (take (unat (i + 1)) ?m1
                   @ take (unat (str_length ?s1) - unat (i + 1)) (drop (unat (i + 1) + ?k) ?m1)
                   @ drop (unat (str_length ?s1)) ?m1)\<rparr>)"
      using lt suc less.prems(2,3) by (intro less.hyps) simp_all
    have a: "take (Suc (unat i)) ?m1 = take (unat i) m @ [?c]"
      using inb by (simp add: take_Suc_conv_app_nth)
    have b: "drop (Suc (unat i + ?k)) ?m1 = drop (Suc (unat i + ?k)) m"
      by simp
    have c: "drop ?L ?m1 = drop ?L m"
      using lt by simp
    have d: "take (?L - unat i) (drop (unat i + ?k) m)
               = ?c # take (?L - Suc (unat i)) (drop (Suc (unat i + ?k)) m)"
    proof -
      have "drop (unat i + ?k) m = ?c # drop (Suc (unat i + ?k)) m"
        using inb(1) by (simp add: Cons_nth_drop_Suc)
      moreover have "?L - unat i = Suc (?L - Suc (unat i))" using lt by simp
      ultimately show ?thesis by simp
    qed
    have "erase_loop s count i = erase_loop ?s1 count (i + 1)"
      using True get set by (subst erase_loop.simps) simp
    also have "\<dots> = Some (s\<lparr>str_chars := Some (take (unat i) m
                   @ take (?L - unat i) (drop (unat i + ?k) m) @ drop ?L m)\<rparr>)"
      unfolding ih using a b c d by (simp add: suc)
    finally show ?thesis .
  qed
qed

lemma String_erase_spec:
  assumes ok: "String_ok s" and range: "unat index + unat count \<le> unat (str_length s)"
  shows "\<exists>s'. String_erase s index count = Some (s', True) \<and> String_ok s'
            \<and> unat (str_length s') = unat (str_length s) - unat count
            \<and> str_capacity s' = str_capacity s
            \<and> content s' = Some (take (unat index) (the (content s))
                                  @ drop (unat index + unat count) (the (content s)))"
proof -
  let ?L = "unat (str_length s)"
  let ?k = "unat count"
  let ?i = "unat index"
  have sum: "unat (index + count) = ?i + ?k"
    using range unat_lt64 [of "str_length s"] by (intro unat_plus64) simp
  have guard: "\<not> index + count > str_length s"
    using sum range by (simp add: word_less_nat_alt)
  have cle: "count \<le> str_length s" using range by (simp add: word_le_nat_alt)
  have len': "unat (str_length s - count) = ?L - ?k"
    using cle by (simp add: unat_sub)
  let ?s0 = "s\<lparr>str_length := str_length s - count\<rparr>"
  show ?thesis
  proof (cases "str_chars s")
    case None
    with ok have z: "str_length s = 0" by (simp add: String_ok_None)
    with range have "index = 0" "count = 0" by (simp_all add: unat_eq_zero)
    then have e: "index = 0" "count = 0" by simp_all
    have loop: "erase_loop s 0 0 = Some s"
      using z by (subst erase_loop.simps) simp
    have same: "s\<lparr>str_length := 0\<rparr> = s" using z by (cases s) simp
    have "String_erase s index count = erase_loop (s\<lparr>str_length := 0\<rparr>) 0 0 \<bind> (\<lambda>s'. Some (s', True))"
      using z e by (simp add: String_erase_def)
    also have "\<dots> = Some (s, True)"
      unfolding same loop by simp
    finally have "String_erase s index count = Some (s, True)" .
    then show ?thesis
      using ok z e by (simp add: content_ok)
  next
    case (Some m)
    have m: "?L \<le> length m" and mlt: "length m < 2 ^ 64"
      using String_ok_Some [OF ok Some] by simp_all
    let ?m' = "take ?i m @ take (?L - ?k - ?i) (drop (?i + ?k) m) @ drop (?L - ?k) m"
    have loop: "erase_loop ?s0 count index = Some (?s0\<lparr>str_chars := Some ?m'\<rparr>)"
      using erase_loop_spec [of ?s0 m count index] Some m mlt range len' by simp
    have run: "String_erase s index count = Some (?s0\<lparr>str_chars := Some ?m'\<rparr>, True)"
      using guard loop by (simp add: String_erase_def)
    have lm': "length ?m' = length m" using range m by simp
    have ok': "String_ok (?s0\<lparr>str_chars := Some ?m'\<rparr>)"
      using ok Some m range len' by (auto simp: String_ok_def word_less_nat_alt)
    have cs: "the (content s) = take ?L m"
      using content_ok [OF ok] Some by (simp add: chars_def)
    have "take (?L - ?k) ?m' = take ?i m @ take (?L - ?k - ?i) (drop (?i + ?k) m)"
      using range m by simp
    moreover have "take ?i (take ?L m) = take ?i m" using range by simp
    moreover have "drop (?i + ?k) (take ?L m) = take (?L - ?k - ?i) (drop (?i + ?k) m)"
      using range by (simp add: drop_take algebra_simps)
    ultimately have "content (?s0\<lparr>str_chars := Some ?m'\<rparr>)
        = Some (take ?i (the (content s)) @ drop (?i + ?k) (the (content s)))"
      unfolding cs using content_ok [OF ok'] len' by (simp add: chars_def)
    then show ?thesis using run ok' len' by simp
  qed
qed

lemma String_erase_reject:
  assumes "unat index + unat count > unat (str_length s)" "unat index + unat count < 2 ^ 64"
  shows "String_erase s index count = Some (s, False)"
proof -
  have "unat (index + count) = unat index + unat count"
    using assms(2) by (rule unat_plus64)
  then show ?thesis using assms(1) by (simp add: String_erase_def word_less_nat_alt)
qed

section \<open>Inserting\<close>

lemma insert_shift_spec:
  assumes "str_chars s = Some m"
    and "unat i + unat n \<le> length m" "length m < 2 ^ 64"
    and "index \<le> i" "0 < unat n"
  shows "insert_shift s n index i =
           Some (s\<lparr>str_chars := Some (take (unat index + unat n) m
                   @ take (unat i - unat index) (drop (unat index) m)
                   @ drop (unat i + unat n) m)\<rparr>)"
  using assms
proof (induction "unat i" arbitrary: s m i rule: less_induct)
  case less
  let ?n = "unat n"
  let ?x = "unat index"
  show ?case
  proof (cases "i > index")
    case False
    then have eq: "i = index" using less.prems(4) by simp
    have e: "take (?x + ?n) m @ take (unat i - ?x) (drop ?x m) @ drop (unat i + ?n) m = m"
      unfolding eq by simp
    show ?thesis
      unfolding e using False less.prems(1) by (subst insert_shift.simps) simp
  next
    case True
    then have lt: "?x < unat i" by (simp add: word_less_nat_alt)
    then have pos: "0 < unat i" by simp
    have pred: "unat (i - 1) = unat i - 1"
      using pos by (simp add: unat_sub word_le_nat_alt)
    have sum: "unat (i + n) = unat i + ?n"
      using less.prems(2,3) by (intro unat_plus64) simp
    have dst: "unat (i + n - 1) = unat i + ?n - 1"
      using pos sum by (simp add: unat_sub word_le_nat_alt)
    let ?c = "m ! (unat i - 1)"
    let ?k = "unat i + ?n - 1"
    let ?m1 = "m[?k := ?c]"
    let ?s1 = "s\<lparr>str_chars := Some ?m1\<rparr>"
    have inb: "unat i - 1 < length m" "?k < length m"
      using pos less.prems(2,5) by simp_all
    have get: "at_get s (i - 1) = Some ?c"
      using less.prems(1) inb pred by (simp add: at_get_def chars_def peek_def)
    have set: "at_set s (i + n - 1) ?c = Some ?s1"
      using less.prems(1) inb dst by (simp add: at_set_def poke_def)
    have ih: "insert_shift ?s1 n index (i - 1) =
           Some (?s1\<lparr>str_chars := Some (take (?x + ?n) ?m1
                   @ take (unat (i - 1) - ?x) (drop ?x ?m1)
                   @ drop (unat (i - 1) + ?n) ?m1)\<rparr>)"
      using lt pos pred less.prems(2,3,5)
      by (intro less.hyps) (simp_all add: word_le_nat_alt)
    have a: "take (?x + ?n) ?m1 = take (?x + ?n) m"
      using lt by simp
    have b: "take (unat i - 1 - ?x) (drop ?x ?m1) = take (unat i - 1 - ?x) (drop ?x m)"
      using lt less.prems(5) by (simp add: drop_update_swap)
    have c: "drop (unat i - 1 + ?n) ?m1 = ?c # drop (unat i + ?n) m"
    proof -
      have "unat i - 1 + ?n = ?k" using pos by simp
      moreover have "drop ?k ?m1 = ?c # drop (Suc ?k) m"
        using inb(2) by (simp add: drop_update_cancel flip: Cons_nth_drop_Suc)
      moreover have "Suc ?k = unat i + ?n" using pos by simp
      ultimately show ?thesis by simp
    qed
    have d: "take (unat i - ?x) (drop ?x m) = take (unat i - 1 - ?x) (drop ?x m) @ [?c]"
    proof -
      have "unat i - ?x = Suc (unat i - 1 - ?x)" using lt by simp
      moreover have "unat i - 1 - ?x < length (drop ?x m)" using lt inb(1) by simp
      moreover have "drop ?x m ! (unat i - 1 - ?x) = ?c" using lt inb(1) by simp
      ultimately show ?thesis by (simp add: take_Suc_conv_app_nth)
    qed
    have "insert_shift s n index i = insert_shift ?s1 n index (i - 1)"
      using True get set by (subst insert_shift.simps) simp
    also have "\<dots> = Some (s\<lparr>str_chars := Some (take (?x + ?n) m
                   @ take (unat i - ?x) (drop ?x m) @ drop (unat i + ?n) m)\<rparr>)"
      unfolding ih pred a b c d by simp
    finally show ?thesis .
  qed
qed

lemma insert_fill_spec:
  assumes "str_chars s = Some m" "ref_chars v = Some vm"
    and "unat (ref_length v) \<le> length vm"
    and "unat index + unat (ref_length v) \<le> length m" "length m < 2 ^ 64"
    and "i \<le> ref_length v"
  shows "insert_fill s v index i =
           Some (s\<lparr>str_chars := Some (take (unat index + unat i) m
                   @ take (unat (ref_length v) - unat i) (drop (unat i) vm)
                   @ drop (unat index + unat (ref_length v)) m)\<rparr>)"
  using assms
proof (induction "unat (ref_length v) - unat i" arbitrary: s m i rule: less_induct)
  case less
  let ?n = "unat (ref_length v)"
  let ?x = "unat index"
  show ?case
  proof (cases "i < ref_length v")
    case False
    then have "unat i = ?n" using less.prems(6) by (simp add: word_less_nat_alt word_le_nat_alt)
    then show ?thesis
      using False less.prems(1) by (subst insert_fill.simps) simp
  next
    case True
    then have lt: "unat i < ?n" by (simp add: word_less_nat_alt)
    have suc: "unat (i + 1) = unat i + 1"
      using lt unat_lt64 [of "ref_length v"] by (intro unat_suc64) simp
    have sum: "unat (i + index) = unat i + ?x"
      using lt less.prems(4,5) by (intro unat_plus64) simp
    let ?c = "vm ! unat i"
    let ?m1 = "m[?x + unat i := ?c]"
    let ?s1 = "s\<lparr>str_chars := Some ?m1\<rparr>"
    have inb: "unat i < length vm" "?x + unat i < length m"
      using lt less.prems(3,4) by simp_all
    have get: "peek (ref_chars v) i = Some ?c"
      using less.prems(2) inb by (simp add: peek_def)
    have set: "at_set s (i + index) ?c = Some ?s1"
      using less.prems(1) inb sum by (simp add: at_set_def poke_def add.commute)
    have ih: "insert_fill ?s1 v index (i + 1) =
           Some (?s1\<lparr>str_chars := Some (take (?x + unat (i + 1)) ?m1
                   @ take (?n - unat (i + 1)) (drop (unat (i + 1)) vm)
                   @ drop (?x + ?n) ?m1)\<rparr>)"
      using lt suc less.prems(2,3,4,5)
      by (intro less.hyps) (simp_all add: word_le_nat_alt)
    have a: "take (Suc (?x + unat i)) ?m1 = take (?x + unat i) m @ [?c]"
      using inb by (simp add: take_Suc_conv_app_nth)
    have b: "drop (?x + ?n) ?m1 = drop (?x + ?n) m"
      using lt by simp
    have d: "take (?n - unat i) (drop (unat i) vm) = ?c # take (?n - Suc (unat i)) (drop (Suc (unat i)) vm)"
    proof -
      have "drop (unat i) vm = ?c # drop (Suc (unat i)) vm"
        using inb(1) by (simp add: Cons_nth_drop_Suc)
      moreover have "?n - unat i = Suc (?n - Suc (unat i))" using lt by simp
      ultimately show ?thesis by simp
    qed
    have "insert_fill s v index i = insert_fill ?s1 v index (i + 1)"
      using True get set by (subst insert_fill.simps) simp
    also have "\<dots> = Some (s\<lparr>str_chars := Some (take (?x + unat i) m
                   @ take (?n - unat i) (drop (unat i) vm) @ drop (?x + ?n) m)\<rparr>)"
      unfolding ih suc using a b d by simp
    finally show ?thesis .
  qed
qed

lemma content_length:
  "String_ok s \<Longrightarrow> length (the (content s)) = unat (str_length s)"
  by (cases "str_chars s")
     (auto simp: content_ok chars_def String_ok_def word_less_nat_alt unat_eq_zero)

lemma String_insert_spec:
  assumes ok: "String_ok s"
    and v: "ref_chars v = Some vm" "unat (ref_length v) \<le> length vm" "ref_length v \<noteq> 0"
    and small: "2 * unat (str_length s) + unat (ref_length v) \<le> 2 ^ 60"
  shows "\<exists>s'. String_insert junk s index v = Some (s', True) \<and> String_ok s'
            \<and> unat (str_length s') = unat (str_length s) + unat (ref_length v)
            \<and> str_capacity s \<le> str_capacity s'
            \<and> content s' = Some (take (unat index) (the (content s))
                                  @ take (unat (ref_length v)) vm
                                  @ drop (unat index) (the (content s)))"
proof (cases "index \<ge> str_length s")
  case True
  have npos: "0 < ref_length v" using v(3) by (simp add: word_neq_0_conv)
  have arg: "arg_ok (ref_chars v, ref_length v)"
    using v npos by (simp add: arg_ok_def)
  have al: "arg_len (ref_chars v, ref_length v) = unat (ref_length v)"
    using npos by (simp add: arg_len_def)
  obtain s' where s': "String_append junk s (ref_chars v) (ref_length v) = Some s'" "String_ok s'"
      "unat (str_length s') = unat (str_length s) + arg_len (ref_chars v, ref_length v)"
      "str_capacity s \<le> str_capacity s'"
      "content s' = Some (the (content s) @ take (arg_len (ref_chars v, ref_length v)) (the (ref_chars v)))"
    using append_total [OF ok arg, of junk] small al by auto
  have "unat (str_length s) \<le> unat index" using True by (simp add: word_le_nat_alt)
  then have "take (unat index) (the (content s)) = the (content s)"
      "drop (unat index) (the (content s)) = []"
    using content_length [OF ok] by simp_all
  then show ?thesis
    using True v(1,3) s' al by (simp add: String_insert_def)
next
  case False
  let ?L = "unat (str_length s)"
  let ?n = "unat (ref_length v)"
  let ?x = "unat index"
  have xlt: "?x < ?L" using False by (simp add: word_le_nat_alt)
  have npos: "0 < ?n" using v(3) by (simp add: unat_gt_0)
  have amount: "unat (str_length s + ref_length v) = ?L + ?n"
    using small by (intro unat_plus64) simp
  obtain s1 m1 where s1: "String_resize junk s (str_length s + ref_length v) = Some s1"
      "String_ok s1" "str_chars s1 = Some m1" "str_length s1 = str_length s"
      "str_capacity s \<le> str_capacity s1"
      "?L + unat (str_length s + ref_length v) < unat (str_capacity s1)"
      "take ?L m1 = take ?L (the (chars s))"
      "length m1 = unat (str_capacity s1)" "2 \<le> unat (str_capacity s1)"
    using resize_total [OF ok, of "str_length s + ref_length v" junk] small amount by auto
  note m1 = s1(8,9)
  have m1lt: "length m1 < 2 ^ 64" using m1(1) unat_lt64 [of "str_capacity s1"] by simp
  have room: "?L + ?L + ?n < length m1" using s1(6) amount m1(1) by simp
  let ?S = "take (?x + ?n) m1 @ take (?L - ?x) (drop ?x m1) @ drop (?L + ?n) m1"
  let ?s2 = "s1\<lparr>str_chars := Some ?S\<rparr>"
  have shift: "insert_shift s1 (ref_length v) index (str_length s1) = Some ?s2"
    using insert_shift_spec [of s1 m1 "str_length s1" "ref_length v" index]
      s1(3,4) room m1lt xlt npos by (simp add: word_le_nat_alt)
  have lS: "length ?S = length m1" using room xlt by simp
  let ?F = "take ?x ?S @ take ?n vm @ drop (?x + ?n) ?S"
  let ?s3 = "?s2\<lparr>str_chars := Some ?F\<rparr>"
  have fill: "insert_fill ?s2 v index 0 = Some ?s3"
    using insert_fill_spec [of ?s2 ?S v vm index 0] v(1,2) lS room xlt m1lt by simp
  have lF: "length ?F = length m1" using room xlt v(2) by simp
  let ?s' = "?s3\<lparr>str_length := str_length ?s3 + ref_length v\<rparr>"
  have run: "String_insert junk s index v = Some (?s', True)"
    using False v(3) s1(1) shift fill
    by (simp add: String_insert_def del: take_append drop_append)
  have len': "unat (str_length ?s') = ?L + ?n" using s1(4) amount by simp
  have ok': "String_ok ?s'"
    using lF m1 room len'
    by (intro String_okI [where m = ?F])
       (simp_all del: take_append drop_append length_append length_take length_drop)
  have cs: "the (content s) = take ?L m1"
    using content_ok [OF ok] s1(7) by simp
  have tx: "take ?x ?S = take ?x m1" using room xlt by simp
  have dx: "drop (?x + ?n) ?S = take (?L - ?x) (drop ?x m1) @ drop (?L + ?n) m1"
    using room xlt by simp
  have "take (?L + ?n) ?F = take ?x m1 @ take ?n vm @ take (?L - ?x) (drop ?x m1)"
    unfolding tx dx using room xlt v(2) by simp
  moreover have "take ?x (take ?L m1) = take ?x m1" using xlt by simp
  moreover have "drop ?x (take ?L m1) = take (?L - ?x) (drop ?x m1)"
    by (simp add: drop_take)
  ultimately have "content ?s' = Some (take ?x (the (content s)) @ take ?n vm @ drop ?x (the (content s)))"
    unfolding cs using content_ok [OF ok'] len' by (simp add: chars_def del: take_append drop_append)
  then show ?thesis
    using run ok' len' s1(5) by (simp del: take_append drop_append)
qed

section \<open>Replacing\<close>

lemma replace_potential:
  fixes L N T p pos :: nat
  assumes "pos \<le> p" "p + N \<le> L" "1 \<le> N" "1 \<le> T"
  shows "(p + T) + (L - N + T - (p + T)) * T \<le> pos + (L - pos) * T"
proof -
  define d where "d = p - pos"
  define r where "r = L - N - p"
  have L: "L - pos = d + N + r" "L - N + T - (p + T) = r" "p = pos + d"
    using assms by (simp_all add: d_def r_def)
  have a: "d \<le> d * T" using assms(4) by simp
  have b: "T \<le> N * T" using assms(3) by simp
  have lhs: "(p + T) + (L - N + T - (p + T)) * T = pos + d + T + r * T"
    unfolding L(2) by (simp add: L(3))
  have rhs: "pos + (L - pos) * T = pos + (d * T + N * T + r * T)"
    unfolding L(1) by (simp add: add_mult_distrib)
  show ?thesis unfolding lhs rhs using a b by linarith
qed

lemma unat_suc_le: "unat (w + 1 :: size_t) \<le> unat w + 1"
proof -
  have "unat (w + 1) = (unat w + 1) mod 2 ^ 64"
    by (simp add: unat_word_ariths)
  then show ?thesis by (simp add: mod_less_eq_dividend)
qed

lemma replace_loop_total:
  assumes needle: "ref_chars needle = Some nm" "unat (ref_length needle) < length nm"
      "ref_length needle \<noteq> 0"
    and to: "ref_chars to = Some tm" "unat (ref_length to) \<le> length tm" "ref_length to \<noteq> 0"
    and ok: "String_ok s"
    and pos: "unat pos \<le> unat (str_length s)"
    and small: "unat pos + (unat (str_length s) - unat pos) * unat (ref_length to)
                  + unat (ref_length to) \<le> 2 ^ 59"
  shows "\<exists>s' n. replace_loop junk needle to s replaced pos = Some (s', n) \<and> String_ok s'
            \<and> unat n \<le> unat replaced + (unat (str_length s) - unat pos)"
  using ok pos small
proof (induction "unat (str_length s) - unat pos" arbitrary: s pos replaced rule: less_induct)
  case less
  let ?L = "unat (str_length s)"
  let ?N = "unat (ref_length needle)"
  let ?T = "unat (ref_length to)"
  have N: "1 \<le> ?N" using needle(3) by (simp add: unat_gt_0 Suc_le_eq)
  have T: "1 \<le> ?T" using to(3) by (simp add: unat_gt_0 Suc_le_eq)
  show ?case
  proof (cases "pos < str_length s")
    case False
    then show ?thesis using less.prems(1) by (subst replace_loop.simps) simp
  next
    case True
    then have lt: "unat pos < ?L" by (simp add: word_less_nat_alt)
    have "?L - unat pos \<le> (?L - unat pos) * ?T" using T by simp
    then have Lb: "?L + ?T \<le> 2 ^ 59" using less.prems(2,3) by linarith
    obtain m where m: "str_chars s = Some m" "?L \<le> length m"
      using less.prems(1) lt
      by (cases "str_chars s") (auto simp: String_ok_def word_less_nat_alt)
    obtain p where p: "StringRef_find (str s) needle pos = Some p"
        "p = InvalidIndex \<or> (pos \<le> p \<and> unat p + ?N \<le> ?L)"
      using StringRef_find_total [of "str s" m needle nm pos] m needle(1,2) Lb
      by (auto simp: str_def)
    show ?thesis
    proof (cases "p = InvalidIndex")
      case True
      then show ?thesis
        using \<open>pos < str_length s\<close> p(1) less.prems(1) by (subst replace_loop.simps) simp
    next
      case False
      with p(2) have pr: "unat pos \<le> unat p" "unat p + ?N \<le> ?L"
        by (simp_all add: word_le_nat_alt)
      obtain s1 where s1: "String_erase s p (ref_length needle) = Some (s1, True)" "String_ok s1"
          "unat (str_length s1) = ?L - ?N"
        using String_erase_spec [OF less.prems(1) pr(2)] by blast
      have "2 * unat (str_length s1) + ?T \<le> 2 ^ 60" using s1(3) Lb by simp
      then obtain s2 where s2: "String_insert junk s1 p to = Some (s2, True)" "String_ok s2"
          "unat (str_length s2) = unat (str_length s1) + ?T"
        using String_insert_spec [OF s1(2) to, of junk p] by blast
      have L2: "unat (str_length s2) = ?L - ?N + ?T" using s2(3) s1(3) by simp
      have pos': "unat (p + ref_length to) = unat p + ?T"
        using pr(2) Lb by (intro unat_plus64) simp
      have pos'le: "unat (p + ref_length to) \<le> unat (str_length s2)"
        using pos' L2 pr(2) by simp
      have pot: "(unat p + ?T) + (?L - ?N + ?T - (unat p + ?T)) * ?T \<le> unat pos + (?L - unat pos) * ?T"
        using pr N T by (rule replace_potential)
      have dec: "unat (str_length s2) - unat (p + ref_length to) < ?L - unat pos"
        using pos' L2 pr N lt by simp
      have "\<exists>s' n. replace_loop junk needle to s2 (replaced + 1) (p + ref_length to) = Some (s', n)
              \<and> String_ok s'
              \<and> unat n \<le> unat (replaced + 1) + (unat (str_length s2) - unat (p + ref_length to))"
        using dec s2(2) pos'le pot less.prems(3) by (intro less.hyps) (simp_all add: pos' L2)
      then obtain s' n where r: "replace_loop junk needle to s2 (replaced + 1) (p + ref_length to) = Some (s', n)"
          "String_ok s'"
          "unat n \<le> unat (replaced + 1) + (unat (str_length s2) - unat (p + ref_length to))"
        by blast
      have "unat n \<le> unat replaced + (?L - unat pos)"
        using r(3) dec unat_suc_le [of replaced] by simp
      moreover have "replace_loop junk needle to s replaced pos = Some (s', n)"
        using \<open>pos < str_length s\<close> p(1) False s1(1) s2(1) r(1)
        by (subst replace_loop.simps) simp
      ultimately show ?thesis using r(2) by blast
    qed
  qed
qed

text \<open>
  Claim C6. \<^verbatim>\<open>replace (needle, to)\<close> terminates, also when \<^verbatim>\<open>to\<close> contains \<^verbatim>\<open>needle\<close>. For a
  well-formed string, a needle whose bytes and the byte after them can be read, a
  replacement whose bytes can be read, and sizes small enough that no \<^verbatim>\<open>size_t\<close> sum
  wraps, the call returns; the string it leaves is well-formed and the number of
  replacements is at most the length the string had. Each round continues the scan at
  the end of the inserted text, so the distance from the scan position to the end of
  the string falls by the length of the needle at least. In the witness the replacement
  \<^verbatim>\<open>"aa"\<close> contains the needle \<^verbatim>\<open>"a"\<close>.
\<close>

theorem replace_terminates:
  assumes "String_ok s"
    and "ref_bytes needle (unat (ref_length needle) + 1)"
    and "ref_bytes to (unat (ref_length to))"
    and "(unat (str_length s) + 1) * unat (ref_length to) \<le> 2 ^ 59"
  shows "\<exists>s' n. String_replace junk s needle to = Some (s', n) \<and> String_ok s'
            \<and> unat n \<le> unat (str_length s)"
proof (cases "ref_length needle = 0 \<or> ref_length to = 0")
  case True
  then show ?thesis using assms(1) by (auto simp: String_replace_def)
next
  case False
  obtain nm where nm: "ref_chars needle = Some nm" "unat (ref_length needle) < length nm"
    using assms(2) by (cases "ref_chars needle") (auto simp: ref_bytes_def)
  obtain tm where tm: "ref_chars to = Some tm" "unat (ref_length to) \<le> length tm"
    using assms(3) by (cases "ref_chars to") (auto simp: ref_bytes_def)
  have "\<exists>s' n. replace_loop junk needle to s 0 0 = Some (s', n) \<and> String_ok s'
            \<and> unat n \<le> unat (0 :: size_t) + (unat (str_length s) - unat (0 :: size_t))"
    using nm tm False assms(1,4) by (intro replace_loop_total) (simp_all add: algebra_simps)
  then show ?thesis using False by (simp add: String_replace_def)
qed

theorem replace_terminates_witness:
  "\<exists>s. String_cstr (\<lambda>n. kNullChar) (literal ''banana'') 0 = Some s
       \<and> String_ok s
       \<and> ref_bytes \<lparr>ref_chars = literal ''a'', ref_length = 1\<rparr> 2
       \<and> ref_bytes \<lparr>ref_chars = literal ''aa'', ref_length = 2\<rparr> 2
       \<and> (\<exists>s' n. String_replace (\<lambda>n. kNullChar) s
                    \<lparr>ref_chars = literal ''a'', ref_length = 1\<rparr>
                    \<lparr>ref_chars = literal ''aa'', ref_length = 2\<rparr> = Some (s', n)
              \<and> String_ok s' \<and> unat n \<le> unat (str_length s))"
proof -
  let ?J = "\<lambda>n::nat. kNullChar"
  let ?needle = "\<lparr>ref_chars = literal ''a'', ref_length = 1\<rparr>"
  let ?to = "\<lparr>ref_chars = literal ''aa'', ref_length = 2\<rparr>"
  have e: "String_ok String_empty"
    by (simp add: String_ok_def String_empty_def)
  have a: "arg_ok (literal ''banana'', 0)" "arg_len (literal ''banana'', 0) = 6"
    by (simp_all add: arg_ok_def arg_len_def literal_def)
  obtain s where s: "String_assign ?J String_empty (literal ''banana'') 0 = Some s" "String_ok s"
      "unat (str_length s) = arg_len (literal ''banana'', 0)"
    using assign_total [OF e a(1), of ?J] a(2) by (auto simp: String_empty_def)
  have h2: "ref_bytes ?needle (unat (ref_length ?needle) + 1)"
    by (simp add: ref_bytes_def literal_def)
  have h3: "ref_bytes ?to (unat (ref_length ?to))"
    by (simp add: ref_bytes_def literal_def)
  have h4: "(unat (str_length s) + 1) * unat (ref_length ?to) \<le> 2 ^ 59"
    using s(3) a(2) by simp
  have b: "ref_bytes ?needle 2" "ref_bytes ?to 2"
    by (simp_all add: ref_bytes_def literal_def)
  show ?thesis
    using replace_terminates [OF s(2) h2 h3 h4, of ?J] s(1,2) b
    by (simp add: String_cstr_def)
qed

section \<open>Further properties of the mutating operations\<close>

text \<open>
  Where \<^verbatim>\<open>index + count\<close> does not exceed the length, \<^verbatim>\<open>erase (index, count)\<close>
  returns true, removes the \<open>count\<close> bytes at \<open>index\<close> from the content, lowers the
  length by \<open>count\<close> and leaves the capacity as it is.
\<close>

theorem erase_in_range:
  assumes "String_ok s" "unat index + unat count \<le> unat (str_length s)"
  shows "\<exists>s'. String_erase s index count = Some (s', True)
            \<and> unat (str_length s') = unat (str_length s) - unat count
            \<and> str_capacity s' = str_capacity s
            \<and> content s' = Some (take (unat index) (the (content s))
                                  @ drop (unat index + unat count) (the (content s)))"
  using String_erase_spec [OF assms] by blast

theorem erase_in_range_witness:
  "\<exists>s. String_cstr (\<lambda>n. kNullChar) (literal ''hello'') 0 = Some s
       \<and> String_ok s \<and> unat (1 :: size_t) + unat (2 :: size_t) \<le> unat (str_length s)
       \<and> (\<exists>s'. String_erase s 1 2 = Some (s', True) \<and> content s' = Some ''hlo''
              \<and> unat (str_length s') = 3 \<and> str_capacity s' = str_capacity s)"
proof -
  let ?J = "\<lambda>n::nat. kNullChar"
  have e: "String_ok String_empty"
    by (simp add: String_ok_def String_empty_def)
  have a: "arg_ok (literal ''hello'', 0)" "arg_len (literal ''hello'', 0) = 5"
    by (simp_all add: arg_ok_def arg_len_def literal_def)
  obtain s where s: "String_assign ?J String_empty (literal ''hello'') 0 = Some s" "String_ok s"
      "unat (str_length s) = arg_len (literal ''hello'', 0)"
      "content s = Some (take (arg_len (literal ''hello'', 0)) (the (literal ''hello'')))"
    using assign_total [OF e a(1), of ?J] a(2) by (auto simp: String_empty_def)
  have r: "unat (1 :: size_t) + unat (2 :: size_t) \<le> unat (str_length s)"
    using s(3) a(2) by simp
  have c: "the (content s) = ''hello''" using s(4) a(2) by (simp add: literal_def)
  show ?thesis
    using erase_in_range [OF s(2) r] s(1,2,3) a(2) c by (auto simp: String_cstr_def)
qed

text \<open>
  Where \<^verbatim>\<open>index + count\<close> exceeds the length and is below \<open>2\<^sup>6\<^sup>4\<close>,
  \<^verbatim>\<open>erase (index, count)\<close> returns false and leaves the string as it is.
\<close>

theorem erase_out_of_range:
  assumes "unat (str_length s) < unat index + unat count" "unat index + unat count < 2 ^ 64"
  shows "String_erase s index count = Some (s, False)"
  using assms by (rule String_erase_reject)

theorem erase_out_of_range_witness:
  "unat (str_length String_empty) < unat (0 :: size_t) + unat (1 :: size_t)
   \<and> unat (0 :: size_t) + unat (1 :: size_t) < 2 ^ 64
   \<and> String_erase String_empty 0 1 = Some (String_empty, False)"
proof -
  have h1: "unat (str_length String_empty) < unat (0 :: size_t) + unat (1 :: size_t)"
    by (simp add: String_empty_def)
  have h2: "unat (0 :: size_t) + unat (1 :: size_t) < 2 ^ 64" by simp
  show ?thesis using erase_out_of_range [OF h1 h2] h1 h2 by blast
qed

text \<open>
  \<^verbatim>\<open>insert (index, str)\<close> with a non-empty, readable \<^verbatim>\<open>str\<close> returns true and
  puts the bytes of \<^verbatim>\<open>str\<close> into the content at \<open>index\<close>, or at the end when \<open>index\<close> is
  not below the length; the length grows by the length of \<^verbatim>\<open>str\<close> and the capacity does
  not shrink.
\<close>

theorem insert_in_range:
  assumes "String_ok s"
    and "ref_chars v = Some vm" "unat (ref_length v) \<le> length vm" "ref_length v \<noteq> 0"
    and "2 * unat (str_length s) + unat (ref_length v) \<le> 2 ^ 60"
  shows "\<exists>s'. String_insert junk s index v = Some (s', True)
            \<and> unat (str_length s') = unat (str_length s) + unat (ref_length v)
            \<and> str_capacity s \<le> str_capacity s'
            \<and> content s' = Some (take (unat index) (the (content s))
                                  @ take (unat (ref_length v)) vm
                                  @ drop (unat index) (the (content s)))"
  using String_insert_spec [OF assms] by blast

theorem insert_in_range_witness:
  "\<exists>s. String_cstr (\<lambda>n. kNullChar) (literal ''hlo'') 0 = Some s \<and> String_ok s
       \<and> (\<exists>s'. String_insert (\<lambda>n. kNullChar) s 1 \<lparr>ref_chars = literal ''el'', ref_length = 2\<rparr>
                  = Some (s', True)
              \<and> content s' = Some ''hello'' \<and> unat (str_length s') = 5)"
proof -
  let ?J = "\<lambda>n::nat. kNullChar"
  let ?v = "\<lparr>ref_chars = literal ''el'', ref_length = 2\<rparr>"
  have e: "String_ok String_empty"
    by (simp add: String_ok_def String_empty_def)
  have a: "arg_ok (literal ''hlo'', 0)" "arg_len (literal ''hlo'', 0) = 3"
    by (simp_all add: arg_ok_def arg_len_def literal_def)
  obtain s where s: "String_assign ?J String_empty (literal ''hlo'') 0 = Some s" "String_ok s"
      "unat (str_length s) = arg_len (literal ''hlo'', 0)"
      "content s = Some (take (arg_len (literal ''hlo'', 0)) (the (literal ''hlo'')))"
    using assign_total [OF e a(1), of ?J] a(2) by (auto simp: String_empty_def)
  have v: "ref_chars ?v = Some (''el'' @ [kNullChar])"
      "unat (ref_length ?v) \<le> length (''el'' @ [kNullChar])" "ref_length ?v \<noteq> 0"
    by (simp_all add: literal_def)
  have small: "2 * unat (str_length s) + unat (ref_length ?v) \<le> 2 ^ 60"
    using s(3) a(2) by simp
  have c: "the (content s) = ''hlo''" using s(4) a(2) by (simp add: literal_def)
  show ?thesis
    using insert_in_range [OF s(2) v small, of ?J 1] s(1,2,3) a(2) c
    by (auto simp: String_cstr_def)
qed

text \<open>
  \<^verbatim>\<open>insert (index, str)\<close> followed by \<^verbatim>\<open>erase (index, str.length ())\<close> gives the
  content and the length back, for an index that is not above the length.
\<close>

theorem insert_then_erase:
  assumes "String_ok s"
    and "ref_chars v = Some vm" "unat (ref_length v) \<le> length vm" "ref_length v \<noteq> 0"
    and "2 * unat (str_length s) + unat (ref_length v) \<le> 2 ^ 60"
    and "index \<le> str_length s"
  shows "\<exists>s1 s2. String_insert junk s index v = Some (s1, True)
            \<and> String_erase s1 index (ref_length v) = Some (s2, True)
            \<and> content s2 = content s \<and> str_length s2 = str_length s"
proof -
  let ?L = "unat (str_length s)"
  let ?n = "unat (ref_length v)"
  let ?x = "unat index"
  let ?cs = "the (content s)"
  have x: "?x \<le> ?L" using assms(6) by (simp add: word_le_nat_alt)
  have lcs: "length ?cs = ?L" using assms(1) by (rule content_length)
  obtain s1 where s1: "String_insert junk s index v = Some (s1, True)" "String_ok s1"
      "unat (str_length s1) = ?L + ?n"
      "content s1 = Some (take ?x ?cs @ take ?n vm @ drop ?x ?cs)"
    using String_insert_spec [OF assms(1-5), of junk index] by blast
  have r: "?x + ?n \<le> unat (str_length s1)" using s1(3) x by simp
  obtain s2 where s2: "String_erase s1 index (ref_length v) = Some (s2, True)"
      "unat (str_length s2) = unat (str_length s1) - ?n"
      "content s2 = Some (take ?x (the (content s1)) @ drop (?x + ?n) (the (content s1)))"
    using String_erase_spec [OF s1(2) r] by blast
  have tk: "take ?x (take ?x ?cs @ take ?n vm @ drop ?x ?cs) = take ?x ?cs"
    using x lcs by simp
  have dr: "drop (?x + ?n) (take ?x ?cs @ take ?n vm @ drop ?x ?cs) = drop ?x ?cs"
    using x lcs assms(3) by simp
  have "content s2 = Some (take ?x ?cs @ drop ?x ?cs)"
    unfolding s2(3) s1(4) option.sel tk dr ..
  then have "content s2 = Some ?cs"
    by (simp only: append_take_drop_id)
  then have "content s2 = content s"
    using content_ok [OF assms(1)] by simp
  moreover have "str_length s2 = str_length s"
    using s2(2) s1(3) by (simp add: word_unat_eq_iff)
  ultimately show ?thesis using s1(1) s2(1) by blast
qed

theorem insert_then_erase_witness:
  "\<exists>s. String_cstr (\<lambda>n. kNullChar) (literal ''hlo'') 0 = Some s \<and> String_ok s
       \<and> (1 :: size_t) \<le> str_length s
       \<and> (\<exists>s1 s2. String_insert (\<lambda>n. kNullChar) s 1 \<lparr>ref_chars = literal ''el'', ref_length = 2\<rparr>
                     = Some (s1, True)
              \<and> String_erase s1 1 2 = Some (s2, True)
              \<and> content s2 = Some ''hlo'' \<and> str_length s2 = str_length s)"
proof -
  let ?J = "\<lambda>n::nat. kNullChar"
  let ?v = "\<lparr>ref_chars = literal ''el'', ref_length = 2\<rparr>"
  have e: "String_ok String_empty"
    by (simp add: String_ok_def String_empty_def)
  have a: "arg_ok (literal ''hlo'', 0)" "arg_len (literal ''hlo'', 0) = 3"
    by (simp_all add: arg_ok_def arg_len_def literal_def)
  obtain s where s: "String_assign ?J String_empty (literal ''hlo'') 0 = Some s" "String_ok s"
      "unat (str_length s) = arg_len (literal ''hlo'', 0)"
      "content s = Some (take (arg_len (literal ''hlo'', 0)) (the (literal ''hlo'')))"
    using assign_total [OF e a(1), of ?J] a(2) by (auto simp: String_empty_def)
  have v: "ref_chars ?v = Some (''el'' @ [kNullChar])"
      "unat (ref_length ?v) \<le> length (''el'' @ [kNullChar])" "ref_length ?v \<noteq> 0"
    by (simp_all add: literal_def)
  have small: "2 * unat (str_length s) + unat (ref_length ?v) \<le> 2 ^ 60"
    using s(3) a(2) by simp
  have i: "(1 :: size_t) \<le> str_length s"
    using s(3) a(2) by (simp add: word_le_nat_alt)
  have c: "content s = Some ''hlo''" using s(4) a(2) by (simp add: literal_def)
  show ?thesis
    using insert_then_erase [OF s(2) v small i, of ?J] s(1,2) i c
    by (auto simp: String_cstr_def)
qed

text \<open>
  \<^verbatim>\<open>append\<close> on a well-formed string with a readable argument adds the
  argument's bytes to the content, adds their number to the length, and stores a zero
  byte at the new length.
\<close>

theorem append_extends:
  assumes "String_ok s" "arg_ok (p, len0)"
    and "unat (str_length s) + arg_len (p, len0) \<le> 2 ^ 60"
  shows "\<exists>s'. String_append junk s p len0 = Some s'
            \<and> unat (str_length s') = unat (str_length s) + arg_len (p, len0)
            \<and> content s' = Some (the (content s) @ take (arg_len (p, len0)) (the p))
            \<and> peek (str_chars s') (str_length s') = Some kNullChar"
  using append_total [OF assms, of junk] by blast

theorem append_extends_witness:
  "String_ok String_empty \<and> arg_ok (literal ''hello'', 0)
   \<and> (\<exists>s'. String_append (\<lambda>n. kNullChar) String_empty (literal ''hello'') 0 = Some s'
          \<and> unat (str_length s') = 5 \<and> content s' = Some ''hello''
          \<and> peek (str_chars s') (str_length s') = Some kNullChar)"
proof -
  have e: "String_ok String_empty"
    by (simp add: String_ok_def String_empty_def)
  have a: "arg_ok (literal ''hello'', 0)" "arg_len (literal ''hello'', 0) = 5"
    by (simp_all add: arg_ok_def arg_len_def literal_def)
  have small: "unat (str_length String_empty) + arg_len (literal ''hello'', 0) \<le> 2 ^ 60"
    using a(2) by (simp add: String_empty_def)
  have c: "the (content String_empty) = []"
    by (simp add: content_def view_def str_def String_empty_def)
  have z: "unat (str_length String_empty) = 0" by (simp add: String_empty_def)
  show ?thesis
    using append_extends [OF e a(1) small, of "\<lambda>n. kNullChar"] e a c z
    by (auto simp: literal_def)
qed

text \<open>
  The scenarios of the specification: \<^verbatim>\<open>replace ("ana", "X")\<close> on \<^verbatim>\<open>"banana"\<close> returns \<open>1\<close> and leaves the content
  \<^verbatim>\<open>"bXna"\<close>; \<^verbatim>\<open>assign ("hello")\<close> followed by \<^verbatim>\<open>append (" world")\<close> leaves the content
  \<^verbatim>\<open>"hello world"\<close> of length \<open>11\<close>.
\<close>

theorem scenarios_replace_append:
  "do { s \<leftarrow> String_cstr junk (literal ''banana'') 0;
        needle \<leftarrow> StringRef_cstr (literal ''ana'');
        to \<leftarrow> StringRef_cstr (literal ''X'');
        (s', n) \<leftarrow> String_replace junk s needle to;
        Some (n, content s') }
     = Some (1, Some ''bXna'')
   \<and> do { s \<leftarrow> String_assign junk String_empty (literal ''hello'') 0;
          s' \<leftarrow> String_append junk s (literal '' world'') 0;
          Some (content s', str_length s') }
     = Some (Some ''hello world'', 11)"
  by code_simp

end
